theory Spec2Isabelle
  imports Main "HOL-Library.Sublist"
begin

section \<open>SysStats: per-user process statistics of a group (sys\_stat.py)\<close>

text \<open>
  The script asks \<^verbatim>\<open>adquery group -m\<close> for the members of a group, asks for every
  member \<^verbatim>\<open>adquery user -P\<close> (the identity, "UPN") and \<^verbatim>\<open>ps\<close> (one line per process:
  rss, pmem, pcpu), sums the three columns and prints a table or a JSON array.

  Conventions of the embedding.
  \<^item> Python's \<^verbatim>\<open>str\<close> is \<^typ>\<open>string\<close>; a \<^typ>\<open>char\<close> is a code point below U+0100.
  \<^item> An external process is taken to start and to finish; what it leaves behind is its
    return code and its two captured streams, byte strings that \<^verbatim>\<open>decode()\<close> turns into
    text or rejects. The outcome of a command depends on the command only.
  \<^item> An exception is a value \<open>Inl e\<close> of \<open>error + 'a\<close>.
  \<^item> A coroutine is a value that tells when it spawns a process and how it goes on. The
    effects (processes spawned, lines printed) are recorded in a state that the functions
    that run coroutines take and return.
  \<^item> The order in which the tasks of \<^verbatim>\<open>asyncio.gather\<close> are resumed is a parameter, since
    it depends on when the processes finish.
  \<^item> The interpreter is CPython 3.11 with its defaults: the conversions between \<^verbatim>\<open>int\<close>
    and \<^verbatim>\<open>str\<close> are limited to 4300 digits.
\<close>

subsection \<open>Text\<close>

definition TAB :: char where
  "TAB = CHR 0x09"

definition NL :: char where
  "NL = CHR 0x0A"

text \<open>\<^verbatim>\<open>str.isspace\<close> on code points below U+0100.\<close>

definition isspace :: "char \<Rightarrow> bool" where
  "isspace c =
     (let n = (of_char c :: nat)
      in (9 \<le> n \<and> n \<le> 13) \<or> (28 \<le> n \<and> n \<le> 32) \<or> n = 133 \<or> n = 160)"

text \<open>\<^verbatim>\<open>s.strip()\<close>\<close>

definition strip :: "string \<Rightarrow> string" where
  "strip s = rev (dropWhile isspace (rev (dropWhile isspace s)))"

text \<open>
  \<^verbatim>\<open>s.split()\<close>: the maximal runs of non-whitespace characters. \<open>cur\<close> is the run read
  so far.
\<close>

fun split_run :: "string \<Rightarrow> string \<Rightarrow> string list" where
  "split_run cur [] = (if cur = [] then [] else [cur])"
| "split_run cur (c # cs) =
     (if isspace c then (if cur = [] then split_run [] cs else cur # split_run [] cs)
      else split_run (cur @ [c]) cs)"

definition split :: "string \<Rightarrow> string list" where
  "split s = split_run [] s"

text \<open>
  \<^verbatim>\<open>s.split(sep)\<close> for a separator of one character: the pieces between the
  separators, empty pieces kept (\<^verbatim>\<open>"".split("\n") == [""]\<close>).
\<close>

fun split_piece :: "char \<Rightarrow> string \<Rightarrow> string \<Rightarrow> string list" where
  "split_piece sep cur [] = [cur]"
| "split_piece sep cur (c # cs) =
     (if c = sep then cur # split_piece sep [] cs else split_piece sep (cur @ [c]) cs)"

definition split_sep :: "char \<Rightarrow> string \<Rightarrow> string list" where
  "split_sep sep s = split_piece sep [] s"

subsection \<open>Exceptions\<close>

text \<open>
  \<open>CommandRunException\<close> is the class of the script, with its message. \<open>ValueError\<close>
  is the built-in one, raised by a failed unpacking and by \<^verbatim>\<open>int()\<close>, \<^verbatim>\<open>float()\<close> and
  \<^verbatim>\<open>str()\<close>; \<open>UnicodeDecodeError\<close>, in Python a subclass of \<open>ValueError\<close>, is raised by
  \<^verbatim>\<open>decode()\<close>. The messages of the built-in ones are not kept.
\<close>

datatype error = CommandRunException string | ValueError | UnicodeDecodeError

subsection \<open>Integers: \<^verbatim>\<open>int(s)\<close> and \<^verbatim>\<open>str(n)\<close>\<close>

definition isdigit :: "char \<Rightarrow> bool" where
  "isdigit c = (let n = (of_char c :: nat) in 48 \<le> n \<and> n \<le> 57)"

definition digit_value :: "char \<Rightarrow> nat" where
  "digit_value c = of_char c - 48"

text \<open>
  The whitespace that \<^verbatim>\<open>int()\<close> and \<^verbatim>\<open>float()\<close> drop around a numeral: the separators
  U+001C..U+001F are whitespace for \<^verbatim>\<open>str.isspace\<close> but not here.
\<close>

definition is_numeral_space :: "char \<Rightarrow> bool" where
  "is_numeral_space c =
     (let n = (of_char c :: nat) in (9 \<le> n \<and> n \<le> 13) \<or> n = 32 \<or> n = 133 \<or> n = 160)"

definition strip_numeral :: "string \<Rightarrow> string" where
  "strip_numeral s = rev (dropWhile is_numeral_space (rev (dropWhile is_numeral_space s)))"

text \<open>
  Underscores in a numeral: each one stands between two digits. The result is the text
  without them, \<open>None\<close> when one is misplaced. \<open>prev\<close> is the character before.
\<close>

fun remove_underscores :: "char option \<Rightarrow> string \<Rightarrow> string option" where
  "remove_underscores prev [] = (if prev = Some CHR ''_'' then None else Some [])"
| "remove_underscores prev (c # cs) =
     (if c = CHR ''_''
      then (case prev of
              None \<Rightarrow> None
            | Some p \<Rightarrow> if isdigit p then remove_underscores (Some c) cs else None)
      else if prev = Some CHR ''_'' \<and> \<not> isdigit c then None
      else map_option ((#) c) (remove_underscores (Some c) cs))"

text \<open>The value of a run of decimal digits, most significant first.\<close>

definition digits_value :: "string \<Rightarrow> nat" where
  "digits_value ds = foldl (\<lambda>n c. 10 * n + digit_value c) 0 ds"

text \<open>An optional sign in front: \<open>True\<close> for minus.\<close>

fun take_sign :: "string \<Rightarrow> bool \<times> string" where
  "take_sign (c # cs) =
     (if c = CHR ''-'' then (True, cs) else if c = CHR ''+'' then (False, cs) else (False, c # cs))"
| "take_sign [] = (False, [])"

text \<open>
  \<^verbatim>\<open>sys.get_int_max_str_digits()\<close>: the largest number of digits that \<^verbatim>\<open>int(s)\<close> reads and
  \<^verbatim>\<open>str(n)\<close> writes.
\<close>

definition int_max_str_digits :: nat where
  "int_max_str_digits = 4300"

text \<open>\<^verbatim>\<open>int(s)\<close>, base ten.\<close>

definition py_int :: "string \<Rightarrow> error + int" where
  "py_int s =
     (case take_sign (strip_numeral s) of
        (neg, body) \<Rightarrow>
          (case remove_underscores None body of
             None \<Rightarrow> Inl ValueError
           | Some ds \<Rightarrow>
               if ds = [] \<or> \<not> list_all isdigit ds \<or> int_max_str_digits < length ds
               then Inl ValueError
               else Inr (if neg then - int (digits_value ds) else int (digits_value ds))))"

text \<open>
  The decimal digits of a natural number, and \<^verbatim>\<open>str(n)\<close> for an integer, which raises
  \<open>ValueError\<close> when there are too many digits.
\<close>

definition digit_char :: "nat \<Rightarrow> char" where
  "digit_char n = ''0123456789abcdef'' ! n"

fun str_nat :: "nat \<Rightarrow> string" where
  "str_nat n =
     (if n < 10 then [digit_char n] else str_nat (n div 10) @ [digit_char (n mod 10)])"

definition str_int :: "int \<Rightarrow> error + string" where
  "str_int i =
     (if int_max_str_digits < length (str_nat (nat \<bar>i\<bar>)) then Inl ValueError
      else Inr (if i < 0 then CHR ''-'' # str_nat (nat \<bar>i\<bar>) else str_nat (nat \<bar>i\<bar>)))"

subsection \<open>Floats: IEEE 754 binary64, round to nearest, ties to even\<close>

text \<open>
  \<open>Finite s m e\<close> is \<open>(-1)\<^sup>s \<times> m \<times> 2\<^sup>e\<close>. Every finite double has one such form with
  \<open>m < 2\<^sup>5\<^sup>3\<close>, \<open>-1074 \<le> e \<le> 971\<close> and \<open>2\<^sup>5\<^sup>2 \<le> m\<close> unless \<open>e = -1074\<close> (zero and the
  subnormal numbers); the operations below return that form. The sign is \<open>True\<close> for
  minus; zero has a sign.
\<close>

datatype float = Finite bool nat int | Infinity bool | NaN

definition valid_float :: "float \<Rightarrow> bool" where
  "valid_float x =
     (case x of
        Finite s m e \<Rightarrow> m < 2 ^ 53 \<and> - 1074 \<le> e \<and> e \<le> 971 \<and> (2 ^ 52 \<le> m \<or> e = - 1074)
      | _ \<Rightarrow> True)"


text \<open>\<^verbatim>\<open>0.0\<close>\<close>

definition float_zero :: float where
  "float_zero = Finite False 0 (- 1074)"

text \<open>
  A positive rational is a numerator and a denominator. Since \<open>nat k = 0\<close> for a negative
  \<open>k\<close>, the rational \<open>num / den \<times> 2\<^sup>k\<close> is \<open>num \<times> 2 ^ nat k\<close> over \<open>den \<times> 2 ^ nat (- k)\<close> for
  every integer \<open>k\<close>.
\<close>

text \<open>The integer nearest to \<open>a / b\<close>, the even one of two that are equally near.\<close>

definition round_half_even :: "nat \<Rightarrow> nat \<Rightarrow> nat" where
  "round_half_even a b =
     (if 2 * (a mod b) < b then a div b
      else if b < 2 * (a mod b) then a div b + 1
      else if even (a div b) then a div b else a div b + 1)"

text \<open>The number of binary digits of \<open>n\<close>.\<close>

fun bitlen :: "nat \<Rightarrow> nat" where
  "bitlen n = (if n = 0 then 0 else Suc (bitlen (n div 2)))"

text \<open>
  \<open>binade num den\<close> is \<open>\<lfloor>log\<^sub>2 (num / den)\<rfloor>\<close> for a positive fraction: the difference \<open>l\<close> of
  the numbers of binary digits, or one less, according to whether \<open>2\<^sup>l \<le> num / den\<close>.
\<close>

definition binade_near :: "int \<Rightarrow> nat \<Rightarrow> nat \<Rightarrow> int" where
  "binade_near l num den = (if den * 2 ^ nat l \<le> num * 2 ^ nat (- l) then l else l - 1)"

definition binade :: "nat \<Rightarrow> nat \<Rightarrow> int" where
  "binade num den = binade_near (int (bitlen num) - int (bitlen den)) num den"

text \<open>
  \<open>pack s m e\<close> is the double \<open>\<plusminus> m \<times> 2\<^sup>e\<close> for \<open>m \<le> 2\<^sup>5\<^sup>3\<close>: a mantissa that rounding has
  carried to \<open>2\<^sup>5\<^sup>3\<close> moves to the next exponent, and an exponent above 971 is infinity.
\<close>

definition pack :: "bool \<Rightarrow> nat \<Rightarrow> int \<Rightarrow> float" where
  "pack s m e =
     (if m = 2 ^ 53 then (if 971 < e + 1 then Infinity s else Finite s (2 ^ 52) (e + 1))
      else if 971 < e then Infinity s
      else Finite s m e)"

text \<open>The multiple of \<open>2\<^sup>e\<close> nearest to \<open>\<plusminus> num / den\<close>.\<close>

definition round_to :: "bool \<Rightarrow> nat \<Rightarrow> nat \<Rightarrow> int \<Rightarrow> float" where
  "round_to s num den e = pack s (round_half_even (num * 2 ^ nat (- e)) (den * 2 ^ nat e)) e"

text \<open>
  The double nearest to \<open>\<plusminus> num / den\<close>: 53 binary digits from the leading one, fewer
  below \<open>2\<^sup>-\<^sup>1\<^sup>0\<^sup>2\<^sup>2\<close>, where the exponent stays at -1074.
\<close>

definition round_double :: "bool \<Rightarrow> nat \<Rightarrow> nat \<Rightarrow> float" where
  "round_double s num den =
     (if num = 0 then Finite s 0 (- 1074)
      else round_to s num den (max (binade num den - 52) (- 1074)))"

text \<open>The double nearest to the integer multiple \<open>a \<times> 2\<^sup>k\<close>.\<close>

definition round_int :: "int \<Rightarrow> int \<Rightarrow> float" where
  "round_int a k =
     (if a = 0 then Finite False 0 (- 1074)
      else round_double (a < 0) (nat \<bar>a\<bar> * 2 ^ nat k) (2 ^ nat (- k)))"

definition signed :: "bool \<Rightarrow> nat \<Rightarrow> int" where
  "signed s m = (if s then - int m else int m)"

text \<open>
  \<^verbatim>\<open>x + y\<close>: the exact sum, rounded. A zero added to another number leaves that number
  as it is; two zeros give minus zero only if both are minus zero.
\<close>

fun float_add :: "float \<Rightarrow> float \<Rightarrow> float" where
  "float_add NaN y = NaN"
| "float_add x NaN = NaN"
| "float_add (Infinity s) (Infinity t) = (if s = t then Infinity s else NaN)"
| "float_add (Infinity s) (Finite t n f) = Infinity s"
| "float_add (Finite s m e) (Infinity t) = Infinity t"
| "float_add (Finite s m e) (Finite t n f) =
     (if m = 0 \<and> n = 0 then Finite (s \<and> t) 0 (- 1074)
      else if m = 0 then Finite t n f
      else if n = 0 then Finite s m e
      else round_int (signed s m * 2 ^ nat (e - min e f) + signed t n * 2 ^ nat (f - min e f))
             (min e f))"

text \<open>The double nearest to the decimal \<open>\<plusminus> d \<times> 10\<^sup>q\<close>.\<close>

definition decimal_double :: "bool \<Rightarrow> nat \<Rightarrow> int \<Rightarrow> float" where
  "decimal_double s d q = round_double s (d * 10 ^ nat q) (10 ^ nat (- q))"

text \<open>
  \<^verbatim>\<open>float(s)\<close>: an optional sign, then \<^verbatim>\<open>inf\<close>, \<^verbatim>\<open>infinity\<close> or \<^verbatim>\<open>nan\<close> in any case, or
  digits with an optional point and an optional exponent.
\<close>

definition lower :: "char \<Rightarrow> char" where
  "lower c =
     (let n = (of_char c :: nat)
      in if 65 \<le> n \<and> n \<le> 90 then ''abcdefghijklmnopqrstuvwxyz'' ! (n - 65) else c)"

text \<open>
  The exponent part: nothing, or \<^verbatim>\<open>e\<close>, an optional sign and digits up to the end.
\<close>

definition exponent_part :: "string \<Rightarrow> int option" where
  "exponent_part s =
     (case s of
        [] \<Rightarrow> Some 0
      | c # cs \<Rightarrow>
          if lower c = CHR ''e'' then
            (case take_sign cs of
               (neg, ds) \<Rightarrow>
                 if ds = [] \<or> \<not> list_all isdigit ds then None
                 else Some (if neg then - int (digits_value ds) else int (digits_value ds)))
          else None)"

text \<open>
  The decimal number: integer digits \<open>ip\<close>, then a point and fraction digits \<open>fp\<close> if
  there is a point, then the exponent part. The result is the pair \<open>(d, x)\<close> for
  \<open>d \<times> 10\<^sup>x\<close>.
\<close>

definition after_point :: "string \<Rightarrow> string" where
  "after_point r = (case r of c # cs \<Rightarrow> if c = CHR ''.'' then cs else r | [] \<Rightarrow> r)"

definition fraction_digits :: "string \<Rightarrow> string" where
  "fraction_digits r =
     (case r of c # cs \<Rightarrow> if c = CHR ''.'' then takeWhile isdigit cs else [] | [] \<Rightarrow> [])"

definition fraction_rest :: "string \<Rightarrow> string" where
  "fraction_rest r =
     (case r of c # cs \<Rightarrow> if c = CHR ''.'' then dropWhile isdigit cs else r | [] \<Rightarrow> r)"

definition decimal_of :: "string \<Rightarrow> string \<Rightarrow> string \<Rightarrow> (nat \<times> int) option" where
  "decimal_of ip fp r =
     (if ip = [] \<and> fp = [] then None
      else case exponent_part r of
             None \<Rightarrow> None
           | Some x \<Rightarrow> Some (digits_value (ip @ fp), x - int (length fp)))"

definition decimal_part :: "string \<Rightarrow> (nat \<times> int) option" where
  "decimal_part s =
     decimal_of (takeWhile isdigit s) (fraction_digits (dropWhile isdigit s))
       (fraction_rest (dropWhile isdigit s))"

definition py_float :: "string \<Rightarrow> error + float" where
  "py_float s =
     (case remove_underscores None (strip_numeral s) of
        None \<Rightarrow> Inl ValueError
      | Some t \<Rightarrow>
          (case take_sign t of
             (neg, body) \<Rightarrow>
               if map lower body = ''inf'' \<or> map lower body = ''infinity'' then Inr (Infinity neg)
               else if map lower body = ''nan'' then Inr NaN
               else (case decimal_part body of
                       None \<Rightarrow> Inl ValueError
                     | Some (d, x) \<Rightarrow> Inr (decimal_double neg d x))))"

text \<open>
  \<^verbatim>\<open>format(x, ".2f")\<close>: the exact value of the double, rounded to hundredths with ties to
  the even digit. \<open>fixed2 n\<close> prints \<open>n\<close> hundredths.
\<close>

definition two_digits :: "nat \<Rightarrow> string" where
  "two_digits n = [digit_char (n div 10), digit_char (n mod 10)]"

definition fixed2 :: "nat \<Rightarrow> string" where
  "fixed2 n = str_nat (n div 100) @ ''.'' @ two_digits (n mod 100)"

fun fmt2 :: "float \<Rightarrow> string" where
  "fmt2 NaN = ''nan''"
| "fmt2 (Infinity s) = (if s then ''-inf'' else ''inf'')"
| "fmt2 (Finite s m e) =
     (if s then ''-'' else [])
     @ fixed2 (round_half_even (100 * m * 2 ^ nat e) (2 ^ nat (- e)))"

text \<open>
  \<^verbatim>\<open>repr(x)\<close>: the shortest decimal that reads back as \<open>x\<close>, the nearest to \<open>x\<close> among
  those of that length.

  \<open>decimal_exponent a b\<close> is \<open>\<lfloor>log\<^sub>1\<^sub>0 (a / b)\<rfloor>\<close> for a positive fraction: one less than the
  number of digits of the integer part or, below one, minus the number of digits of
  \<open>\<lceil>b / a\<rceil> - 1\<close>.
\<close>

definition decimal_exponent :: "nat \<Rightarrow> nat \<Rightarrow> int" where
  "decimal_exponent a b =
     (if b \<le> a then int (length (str_nat (a div b))) - 1
      else - int (length (str_nat ((b - 1) div a))))"

text \<open>
  \<open>lo\<close> and \<open>lo + 1\<close> are the two multiples of \<open>10\<^sup>q\<close> next to the double \<open>x\<close> of sign \<open>s\<close>,
  \<open>nearest\<close> the nearer of them. The result is the one that reads back as \<open>x\<close>; the
  nearer one if both do.
\<close>

definition pick :: "bool \<Rightarrow> float \<Rightarrow> int \<Rightarrow> nat \<Rightarrow> nat \<Rightarrow> (nat \<times> int) option" where
  "pick s x q lo nearest =
     (if decimal_double s lo q = x \<and> decimal_double s (lo + 1) q = x then Some (nearest, q)
      else if decimal_double s lo q = x then Some (lo, q)
      else if decimal_double s (lo + 1) q = x then Some (lo + 1, q)
      else None)"

text \<open>The same for the fraction \<open>a / b\<close>, the exact value of \<open>\<bar>x\<bar>\<close>.\<close>

definition digits_for :: "bool \<Rightarrow> float \<Rightarrow> nat \<Rightarrow> nat \<Rightarrow> int \<Rightarrow> (nat \<times> int) option" where
  "digits_for s x a b q =
     pick s x q ((a * 10 ^ nat (- q)) div (b * 10 ^ nat q))
       (round_half_even (a * 10 ^ nat (- q)) (b * 10 ^ nat q))"

text \<open>
  The decimal with \<open>p\<close> digits; \<open>k\<close> is the decimal exponent of \<open>a / b\<close>.
\<close>

definition digits_at :: "bool \<Rightarrow> float \<Rightarrow> nat \<Rightarrow> nat \<Rightarrow> int \<Rightarrow> nat \<Rightarrow> (nat \<times> int) option" where
  "digits_at s x a b k p = digits_for s x a b (k + 1 - int p)"

fun first_some :: "('a \<Rightarrow> 'b option) \<Rightarrow> 'a list \<Rightarrow> 'b option" where
  "first_some f [] = None"
| "first_some f (x # xs) = (case f x of Some y \<Rightarrow> Some y | None \<Rightarrow> first_some f xs)"

text \<open>
  The digits \<open>d\<close> and the exponent \<open>q\<close> of the decimal \<open>d \<times> 10\<^sup>q\<close> that \<^verbatim>\<open>repr\<close> prints for
  the double \<open>(-1)\<^sup>s \<times> m \<times> 2\<^sup>e\<close>, \<open>0 < m\<close>, whose absolute value is \<open>a / b\<close>. Seventeen digits
  are enough for every double; the last case, the exact decimal expansion, makes the
  function total.
\<close>

definition shortest_from :: "bool \<Rightarrow> nat \<Rightarrow> int \<Rightarrow> nat \<Rightarrow> nat \<Rightarrow> nat \<times> int" where
  "shortest_from s m e a b =
     (case first_some (digits_at s (Finite s m e) a b (decimal_exponent a b))
             [1, 2, 3, 4, 5, 6, 7, 8, 9, 10, 11, 12, 13, 14, 15, 16, 17] of
        Some c \<Rightarrow> c
      | None \<Rightarrow> (a * 10 ^ 1074 div b, - 1074))"

definition shortest_digits :: "bool \<Rightarrow> nat \<Rightarrow> int \<Rightarrow> nat \<times> int" where
  "shortest_digits s m e = shortest_from s m e (m * 2 ^ nat e) (2 ^ nat (- e))"

definition rstrip_zeros :: "string \<Rightarrow> string" where
  "rstrip_zeros ds = rev (dropWhile (\<lambda>c. c = CHR ''0'') (rev ds))"

text \<open>The exponent of the scientific notation: a sign and at least two digits.\<close>

definition exponent_text :: "int \<Rightarrow> string" where
  "exponent_text x =
     (if x < 0 then ''-'' else ''+'')
     @ (if \<bar>x\<bar> < 10 then ''0'' else []) @ str_nat (nat \<bar>x\<bar>)"

text \<open>
  The layout of \<^verbatim>\<open>repr\<close>: \<open>ds\<close> are the digits without trailing zeros, the decimal
  point stands after the first \<open>decpt\<close> of them.
\<close>

definition repr_layout :: "string \<Rightarrow> int \<Rightarrow> string" where
  "repr_layout ds decpt =
     (if decpt \<le> - 4 \<or> 16 < decpt then
        take 1 ds @ (if 1 < length ds then ''.'' @ drop 1 ds else [])
        @ ''e'' @ exponent_text (decpt - 1)
      else if decpt \<le> 0 then ''0.'' @ replicate (nat (- decpt)) CHR ''0'' @ ds
      else if int (length ds) \<le> decpt then
        ds @ replicate (nat decpt - length ds) CHR ''0'' @ ''.0''
      else take (nat decpt) ds @ ''.'' @ drop (nat decpt) ds)"

fun repr_decimal :: "nat \<times> int \<Rightarrow> string" where
  "repr_decimal (d, q) = repr_layout (rstrip_zeros (str_nat d)) (int (length (str_nat d)) + q)"

fun float_repr :: "float \<Rightarrow> string" where
  "float_repr NaN = ''nan''"
| "float_repr (Infinity s) = (if s then ''-inf'' else ''inf'')"
| "float_repr (Finite s m e) =
     (if s then ''-'' else [])
     @ (if m = 0 then ''0.0'' else repr_decimal (shortest_digits s m e))"

subsection \<open>\<^verbatim>\<open>json.dumps\<close>\<close>

text \<open>The Python values that the script serialises.\<close>

datatype pyvalue =
  PyNone
| PyStr string
| PyInt int
| PyFloat float
| PyList "pyvalue list"
| PyDict "(string \<times> pyvalue) list"

definition DQ :: char where
  "DQ = CHR 0x22"

definition BACKSLASH :: char where
  "BACKSLASH = CHR 0x5C"

text \<open>One character of a JSON string, with \<^verbatim>\<open>ensure_ascii\<close>.\<close>

definition json_char :: "char \<Rightarrow> string" where
  "json_char c =
     (let n = (of_char c :: nat)
      in if c = DQ then [BACKSLASH, DQ]
         else if c = BACKSLASH then [BACKSLASH, BACKSLASH]
         else if n = 10 then [BACKSLASH, CHR ''n'']
         else if n = 13 then [BACKSLASH, CHR ''r'']
         else if n = 9 then [BACKSLASH, CHR ''t'']
         else if n = 8 then [BACKSLASH, CHR ''b'']
         else if n = 12 then [BACKSLASH, CHR ''f'']
         else if n < 32 \<or> 126 < n then
           [BACKSLASH, CHR ''u'', CHR ''0'', CHR ''0'', digit_char (n div 16), digit_char (n mod 16)]
         else [c])"

definition json_string :: "string \<Rightarrow> string" where
  "json_string s = [DQ] @ concat (map json_char s) @ [DQ]"

definition json_float :: "float \<Rightarrow> string" where
  "json_float x =
     (case x of
        NaN \<Rightarrow> ''NaN''
      | Infinity s \<Rightarrow> if s then ''-Infinity'' else ''Infinity''
      | Finite s m e \<Rightarrow> float_repr x)"

text \<open>\<^verbatim>\<open>", ".join(items)\<close>\<close>

fun join_comma :: "string list \<Rightarrow> string" where
  "join_comma [] = []"
| "join_comma [x] = x"
| "join_comma (x # y # ys) = x @ '', '' @ join_comma (y # ys)"

text \<open>The results of the items, or the first exception among them.\<close>

fun all_results :: "(error + 'a) list \<Rightarrow> error + 'a list" where
  "all_results [] = Inr []"
| "all_results (r # rs) =
     (case r of
        Inl e \<Rightarrow> Inl e
      | Inr v \<Rightarrow> (case all_results rs of Inl e \<Rightarrow> Inl e | Inr vs \<Rightarrow> Inr (v # vs)))"

text \<open>An integer is written by \<^verbatim>\<open>int.__repr__\<close>, which has the limit of \<^verbatim>\<open>str\<close>.\<close>

fun json_dumps :: "pyvalue \<Rightarrow> error + string" where
  "json_dumps PyNone = Inr ''null''"
| "json_dumps (PyStr s) = Inr (json_string s)"
| "json_dumps (PyInt i) = str_int i"
| "json_dumps (PyFloat x) = Inr (json_float x)"
| "json_dumps (PyList vs) =
     (case all_results (map json_dumps vs) of
        Inl e \<Rightarrow> Inl e
      | Inr items \<Rightarrow> Inr (''['' @ join_comma items @ '']''))"
| "json_dumps (PyDict kvs) =
     (case all_results
             (map (\<lambda>(k, v). case json_dumps v of
                               Inl e \<Rightarrow> Inl e
                             | Inr text \<Rightarrow> Inr (json_string k @ '': '' @ text)) kvs) of
        Inl e \<Rightarrow> Inl e
      | Inr items \<Rightarrow> Inr (''{'' @ join_comma items @ ''}''))"

subsection \<open>The world outside: processes and the terminal\<close>

text \<open>
  A byte string as the script meets it. The script does one thing with the bytes of a
  captured stream, \<^verbatim>\<open>decode()\<close>, so a byte string is given by what that does: it is the
  UTF-8 encoding of a text, or it is not valid UTF-8 and \<^verbatim>\<open>decode()\<close> raises
  \<open>UnicodeDecodeError\<close>.
\<close>

datatype bytes = Encoded string | Undecodable

definition decode :: "bytes \<Rightarrow> error + string" where
  "decode b = (case b of Encoded text \<Rightarrow> Inr text | Undecodable \<Rightarrow> Inl UnicodeDecodeError)"

text \<open>
  What a finished process leaves behind. \<open>shell\<close> gives the outcome of running a command
  line with \<^verbatim>\<open>asyncio.create_subprocess_shell\<close> and \<^verbatim>\<open>communicate()\<close>.
\<close>

record completed =
  returncode :: int
  stdout :: bytes
  stderr :: bytes

type_synonym shell = "string \<Rightarrow> completed"

text \<open>
  The effects of the script so far: the command lines of the processes it spawned and
  the lines it printed (one entry for each call of \<^verbatim>\<open>print\<close>), oldest first.
\<close>

record io =
  spawned :: "string list"
  printed :: "string list"

definition print :: "string \<Rightarrow> io \<Rightarrow> io" where
  "print line w = w\<lparr>printed := printed w @ [line]\<rparr>"

subsection \<open>Coroutines\<close>

text \<open>
  A coroutine, as far as its effects go: it returns a value, it raises an exception, or
  it spawns the process of a command line and waits until that process has finished
  (\<^verbatim>\<open>await asyncio.create_subprocess_shell(...)\<close>, which starts the process at once, and
  \<^verbatim>\<open>await process.communicate()\<close>), and then goes on with what the process left behind.
\<close>

datatype 'a coroutine =
  Return 'a
| Raise error
| Await string "completed \<Rightarrow> 'a coroutine"

text \<open>\<^verbatim>\<open>x = await body; rest(x)\<close>\<close>

primrec bind :: "'a coroutine \<Rightarrow> ('a \<Rightarrow> 'b coroutine) \<Rightarrow> 'b coroutine" where
  "bind (Return v) rest = rest v"
| "bind (Raise e) rest = Raise e"
| "bind (Await command k) rest = Await command (\<lambda>process. bind (k process) rest)"

text \<open>
  \<^verbatim>\<open>try: body  except CommandRunException: handler\<close>: the handler replaces a
  \<open>CommandRunException\<close> of the body; any other exception goes on.
\<close>

primrec except_CommandRunException :: "'a coroutine \<Rightarrow> 'a coroutine \<Rightarrow> 'a coroutine" where
  "except_CommandRunException (Return v) handler = Return v"
| "except_CommandRunException (Raise e) handler =
     (case e of CommandRunException msg \<Rightarrow> handler | _ \<Rightarrow> Raise e)"
| "except_CommandRunException (Await command k) handler =
     Await command (\<lambda>process. except_CommandRunException (k process) handler)"

text \<open>A computation without effects, as a coroutine.\<close>

definition of_result :: "error + 'a \<Rightarrow> 'a coroutine" where
  "of_result r = (case r of Inl e \<Rightarrow> Raise e | Inr v \<Rightarrow> Return v)"

text \<open>
  A coroutine that its caller awaits directly runs to its end before the caller goes on:
  \<open>run\<close> gives its result and the effects.
\<close>

primrec run :: "shell \<Rightarrow> 'a coroutine \<Rightarrow> io \<Rightarrow> (error + 'a) \<times> io" where
  "run sh (Return v) w = (Inr v, w)"
| "run sh (Raise e) w = (Inl e, w)"
| "run sh (Await command k) w = run sh (k (sh command)) (w\<lparr>spawned := spawned w @ [command]\<rparr>)"

subsection \<open>\<^verbatim>\<open>class UserStat\<close>\<close>

record UserStat =
  username :: string
  upn :: "string option"
  rss_total :: int
  pmem_total :: float
  pcpu_total :: float

text \<open>
  \<^verbatim>\<open>to_table_row\<close>. The condition \<^verbatim>\<open>self.upn if self.upn else "none"\<close> is false for
  \<^verbatim>\<open>None\<close> and for the empty string. Of the five fields of the f-string only the
  integer can fail to format.
\<close>

definition to_table_row :: "UserStat \<Rightarrow> error + string" where
  "to_table_row self =
     (let upn_text = (case upn self of
                        None \<Rightarrow> ''none''
                      | Some u \<Rightarrow> if u \<noteq> [] then u else ''none'')
      in case str_int (rss_total self) of
           Inl e \<Rightarrow> Inl e
         | Inr rss_text \<Rightarrow>
             Inr (username self @ [TAB] @ upn_text @ [TAB] @ rss_text @ [TAB]
                  @ fmt2 (pmem_total self) @ [TAB] @ fmt2 (pcpu_total self)))"

text \<open>\<^verbatim>\<open>self.__dict__\<close>: the attributes in the order in which \<^verbatim>\<open>__init__\<close> sets them.\<close>

definition dict_of :: "UserStat \<Rightarrow> pyvalue" where
  "dict_of self =
     PyDict
       [(''username'', PyStr (username self)),
        (''upn'', (case upn self of None \<Rightarrow> PyNone | Some u \<Rightarrow> PyStr u)),
        (''rss_total'', PyInt (rss_total self)),
        (''pmem_total'', PyFloat (pmem_total self)),
        (''pcpu_total'', PyFloat (pcpu_total self))]"

definition to_json :: "UserStat \<Rightarrow> error + string" where
  "to_json self = json_dumps (dict_of self)"

subsection \<open>\<^verbatim>\<open>run_command\<close>\<close>

text \<open>
  The message of the exception is built before the exception is raised, so a standard
  error that does not decode raises \<open>UnicodeDecodeError\<close> in its place.
\<close>

definition run_command :: "string \<Rightarrow> string coroutine" where
  "run_command command =
     Await command
       (\<lambda>process.
          if returncode process \<noteq> 0
          then (case decode (stderr process) of
                  Inl e \<Rightarrow> Raise e
                | Inr text \<Rightarrow>
                    Raise (CommandRunException
                             (''Error running command '' @ command @ '': '' @ text)))
          else of_result (decode (stdout process)))"

subsection \<open>\<^verbatim>\<open>get_user_stats\<close>\<close>

definition identity_command :: "string \<Rightarrow> string" where
  "identity_command user = ''adquery user -P '' @ user"

definition process_command :: "string \<Rightarrow> string" where
  "process_command user = ''ps -hax -o rss,pmem,pcpu -u '' @ user"

text \<open>
  The loop over the lines of the process table. The accumulator holds the three totals.
  A line that does not unpack into three fields raises \<open>ValueError\<close>, and so does a
  field that \<^verbatim>\<open>int()\<close> or \<^verbatim>\<open>float()\<close> rejects.
\<close>

fun sum_lines :: "string list \<Rightarrow> int \<times> float \<times> float \<Rightarrow> error + int \<times> float \<times> float" where
  "sum_lines [] acc = Inr acc"
| "sum_lines (line # rest) (rss_acc, pmem_acc, pcpu_acc) =
     (case split line of
        [rss, pmem, pcpu] \<Rightarrow>
          (case py_int rss of
             Inl err \<Rightarrow> Inl err
           | Inr r \<Rightarrow>
               (case py_float pmem of
                  Inl err \<Rightarrow> Inl err
                | Inr m \<Rightarrow>
                    (case py_float pcpu of
                       Inl err \<Rightarrow> Inl err
                     | Inr c \<Rightarrow>
                         sum_lines rest (rss_acc + r, float_add pmem_acc m, float_add pcpu_acc c))))
      | _ \<Rightarrow> Inl ValueError)"

text \<open>
  The second \<^verbatim>\<open>try\<close> block after the process table has been read: \<open>upn0\<close> is what the
  first block left in \<^verbatim>\<open>upn\<close>. \<^verbatim>\<open>upn.strip() if upn else None\<close> is \<^verbatim>\<open>None\<close> for \<^verbatim>\<open>None\<close>
  and for the empty string.
\<close>

definition build_stat :: "string \<Rightarrow> string option \<Rightarrow> string \<Rightarrow> error + UserStat option" where
  "build_stat user upn0 process_stats =
     (case sum_lines (split_sep NL (strip process_stats)) (0, float_zero, float_zero) of
        Inl err \<Rightarrow> Inl err
      | Inr (rss_acc, pmem_acc, pcpu_acc) \<Rightarrow>
          Inr (Some \<lparr>username = user,
                     upn = (case upn0 of
                              None \<Rightarrow> None
                            | Some u \<Rightarrow> if u \<noteq> [] then Some (strip u) else None),
                     rss_total = rss_acc, pmem_total = pmem_acc, pcpu_total = pcpu_acc\<rparr>))"

text \<open>
  The two \<^verbatim>\<open>try\<close> blocks. The first gives \<^verbatim>\<open>upn\<close>; the second holds the process-table
  command, the loop and the construction of the record.
\<close>

definition get_user_stats :: "string \<Rightarrow> UserStat option coroutine" where
  "get_user_stats user =
     bind (except_CommandRunException
             (bind (run_command (identity_command user)) (\<lambda>upn. Return (Some upn)))
             (Return None))
       (\<lambda>upn0.
          except_CommandRunException
            (bind (run_command (process_command user))
               (\<lambda>process_stats. of_result (build_stat user upn0 process_stats)))
            (Return None))"

subsection \<open>\<^verbatim>\<open>print_stats\<close>\<close>

definition table_header :: string where
  "table_header =
     ''Username'' @ [TAB] @ ''UPN'' @ [TAB] @ ''RSS Total'' @ [TAB] @ ''PMEM Total'' @ [TAB]
     @ ''PCPU Total''"

text \<open>The loop of the table: a row that fails to format ends it, after the rows before.\<close>

fun print_rows :: "UserStat list \<Rightarrow> io \<Rightarrow> (error + unit) \<times> io" where
  "print_rows [] w = (Inr (), w)"
| "print_rows (stat # stats) w =
     (case to_table_row stat of
        Inl e \<Rightarrow> (Inl e, w)
      | Inr row \<Rightarrow> print_rows stats (print row w))"

definition print_stats :: "UserStat list \<Rightarrow> string \<Rightarrow> io \<Rightarrow> (error + unit) \<times> io" where
  "print_stats stats output_format w =
     (if output_format = ''table'' then print_rows stats (print table_header w)
      else if output_format = ''json''
      then (case json_dumps (PyList (map dict_of stats)) of
              Inl e \<Rightarrow> (Inl e, w)
            | Inr text \<Rightarrow> (Inr (), print text w))
      else (Inr (), w))"

subsection \<open>\<^verbatim>\<open>asyncio.gather\<close>\<close>

text \<open>
  A task is a coroutine that the event loop runs in steps. A step runs the coroutine up
  to the point where it waits for a process it has just spawned, or to its end.
  \<open>started c\<close> is the task after a step of the coroutine \<open>c\<close>, \<open>starts c\<close> the command
  spawned in that step.
\<close>

datatype 'a task =
  Waiting string "completed \<Rightarrow> 'a coroutine"
| Finished "error + 'a"

primrec started :: "'a coroutine \<Rightarrow> 'a task" where
  "started (Return v) = Finished (Inr v)"
| "started (Raise e) = Finished (Inl e)"
| "started (Await command k) = Waiting command k"

primrec starts :: "'a coroutine \<Rightarrow> string list" where
  "starts (Return v) = []"
| "starts (Raise e) = []"
| "starts (Await command k) = [command]"

text \<open>What is left of a task when its process has finished.\<close>

primrec continue :: "shell \<Rightarrow> 'a task \<Rightarrow> 'a coroutine" where
  "continue sh (Waiting command k) = k (sh command)"
| "continue sh (Finished r) = of_result r"

primrec waiting :: "'a task \<Rightarrow> bool" where
  "waiting (Waiting command k) = True"
| "waiting (Finished r) = False"

primrec raised :: "'a task \<Rightarrow> error option" where
  "raised (Waiting command k) = None"
| "raised (Finished r) = (case r of Inl e \<Rightarrow> Some e | Inr v \<Rightarrow> None)"

fun first_raised :: "'a task list \<Rightarrow> error option" where
  "first_raised [] = None"
| "first_raised (t # ts) = (case raised t of Some e \<Rightarrow> Some e | None \<Rightarrow> first_raised ts)"

text \<open>
  The order in which the processes finish is not the script's to choose. It is given
  from outside as a list of turns: the event loop resumes the worker task with that
  index, whose process has finished, or it resumes the caller of \<^verbatim>\<open>gather\<close>, which goes
  on only when \<^verbatim>\<open>gather\<close> is done: when a task has raised or all have returned. A turn
  that cannot be taken is passed over. Since \<^verbatim>\<open>gather\<close> does not cancel the other tasks
  when one raises, tasks may take turns between the exception and the caller's turn.

  When the turns are used up, every process still finishes: the tasks are completed one
  after the other in the order of their indices, up to the first that raises.
\<close>

datatype turn = Worker nat | Caller

fun complete_all :: "shell \<Rightarrow> 'a task list \<Rightarrow> io \<Rightarrow> (error + 'a list) \<times> io" where
  "complete_all sh [] w = (Inr [], w)"
| "complete_all sh (t # ts) w =
     (case run sh (continue sh t) w of
        (Inl e, w1) \<Rightarrow> (Inl e, w1)
      | (Inr v, w1) \<Rightarrow>
          (case complete_all sh ts w1 of
             (Inl e, w2) \<Rightarrow> (Inl e, w2)
           | (Inr vs, w2) \<Rightarrow> (Inr (v # vs), w2)))"

text \<open>
  \<open>first\<close> is the exception that \<^verbatim>\<open>gather\<close> passes to its caller: that of the first task
  that raised.
\<close>

fun event_loop ::
  "shell \<Rightarrow> turn list \<Rightarrow> 'a task list \<Rightarrow> error option \<Rightarrow> io \<Rightarrow> (error + 'a list) \<times> io" where
  "event_loop sh [] tasks first w =
     (case first of Some e \<Rightarrow> (Inl e, w) | None \<Rightarrow> complete_all sh tasks w)"
| "event_loop sh (Caller # turns) tasks first w =
     (if first \<noteq> None \<or> \<not> list_ex waiting tasks then event_loop sh [] tasks first w
      else event_loop sh turns tasks first w)"
| "event_loop sh (Worker i # turns) tasks first w =
     (if i < length tasks \<and> waiting (tasks ! i)
      then event_loop sh turns
             (tasks[i := started (continue sh (tasks ! i))])
             (if first = None then raised (started (continue sh (tasks ! i))) else first)
             (w\<lparr>spawned := spawned w @ starts (continue sh (tasks ! i))\<rparr>)
      else event_loop sh turns tasks first w)"

text \<open>
  \<^verbatim>\<open>await asyncio.gather(*coroutines)\<close>: every coroutine becomes a task and takes its
  first step, in the order of the arguments, before any of them is resumed. The result
  is the list of the results in the order of the arguments, or the exception of the
  first task that raised.
\<close>

definition gather :: "shell \<Rightarrow> turn list \<Rightarrow> 'a coroutine list \<Rightarrow> io \<Rightarrow> (error + 'a list) \<times> io" where
  "gather sh turns coroutines w =
     event_loop sh turns (map started coroutines) (first_raised (map started coroutines))
       (w\<lparr>spawned := spawned w @ concat (map starts coroutines)\<rparr>)"

subsection \<open>\<^verbatim>\<open>main\<close>\<close>

definition group_command :: string where
  "group_command = ''adquery group -m''"

text \<open>
  The names for which \<^verbatim>\<open>main\<close> calls \<^verbatim>\<open>get_user_stats\<close>, from the output of the group
  command.
\<close>

definition usernames_of :: "string \<Rightarrow> string list" where
  "usernames_of usernames = map strip (split_sep NL (strip usernames))"

text \<open>
  The part of \<^verbatim>\<open>main\<close> that gathers the statistics and keeps the results that are not
  \<^verbatim>\<open>None\<close> (an object of \<^verbatim>\<open>UserStat\<close> is always true).
\<close>

definition collect_all :: "shell \<Rightarrow> turn list \<Rightarrow> string list \<Rightarrow> io \<Rightarrow> (error + UserStat list) \<times> io" where
  "collect_all sh turns users w =
     (case gather sh turns (map get_user_stats users) w of
        (Inl err, w') \<Rightarrow> (Inl err, w')
      | (Inr user_stats, w') \<Rightarrow> (Inr [stat. Some stat \<leftarrow> user_stats], w'))"

text \<open>
  \<^verbatim>\<open>main\<close>; \<open>output_format\<close> is \<^verbatim>\<open>args.output_format\<close>, which the argument parser has
  checked to be \<^verbatim>\<open>table\<close> or \<^verbatim>\<open>json\<close>.
\<close>

definition main :: "shell \<Rightarrow> turn list \<Rightarrow> string \<Rightarrow> io \<Rightarrow> (error + unit) \<times> io" where
  "main sh turns output_format w =
     (case run sh (run_command group_command) w of
        (Inl err, w1) \<Rightarrow> (Inl err, w1)
      | (Inr usernames, w1) \<Rightarrow>
          (case collect_all sh turns (usernames_of usernames) w1 of
             (Inl err, w2) \<Rightarrow> (Inl err, w2)
           | (Inr stats, w2) \<Rightarrow> print_stats stats output_format w2))"

text \<open>
  The script as a process: \<^verbatim>\<open>asyncio.run(main())\<close>. An exception that leaves \<^verbatim>\<open>main\<close>
  ends the interpreter with its traceback on standard error and exit status 1; the tasks
  that are still waiting are cancelled, which spawns and prints nothing.
\<close>

record finished =
  exit_status :: int
  report :: "string list"
  traceback :: "error option"
  commands :: "string list"

definition script :: "shell \<Rightarrow> turn list \<Rightarrow> string \<Rightarrow> finished" where
  "script sh turns output_format =
     (case main sh turns output_format \<lparr>spawned = [], printed = []\<rparr> of
        (Inl err, w) \<Rightarrow>
          \<lparr>exit_status = 1, report = printed w, traceback = Some err, commands = spawned w\<rparr>
      | (Inr u, w) \<Rightarrow>
          \<lparr>exit_status = 0, report = printed w, traceback = None, commands = spawned w\<rparr>)"

subsection \<open>Notions used in the properties\<close>

text \<open>The result of a coroutine that is run to its end, without the effects.\<close>

primrec result :: "shell \<Rightarrow> 'a coroutine \<Rightarrow> error + 'a" where
  "result sh (Return v) = Inr v"
| "result sh (Raise e) = Inl e"
| "result sh (Await command k) = result sh (k (sh command))"

text \<open>
  The stream of a finished process that \<^verbatim>\<open>run_command\<close> decodes, standard error after a
  failure and standard output otherwise, is not valid UTF-8.
\<close>

definition undecodable :: "completed \<Rightarrow> bool" where
  "undecodable process =
     (if returncode process \<noteq> 0 then stderr process = Undecodable
      else stdout process = Undecodable)"

text \<open>
  The identity that \<^verbatim>\<open>get_user_stats\<close> stores, given the outcome of the identity command.
\<close>

definition upn_of :: "completed \<Rightarrow> string option" where
  "upn_of process =
     (if returncode process \<noteq> 0 then None
      else case stdout process of
             Encoded text \<Rightarrow> if text = [] then None else Some (strip text)
           | Undecodable \<Rightarrow> None)"

text \<open>
  The lines of a process table as \<^verbatim>\<open>get_user_stats\<close> reads them, and the three numbers
  of a line: \<open>None\<close> for a line that does not split into exactly three fields or has a
  field that \<^verbatim>\<open>int()\<close> (first field) or \<^verbatim>\<open>float()\<close> (second and third) rejects.
\<close>

definition process_lines :: "string \<Rightarrow> string list" where
  "process_lines process_stats = split_sep NL (strip process_stats)"

definition parse_line :: "string \<Rightarrow> (int \<times> float \<times> float) option" where
  "parse_line line =
     (case split line of
        [rss, pmem, pcpu] \<Rightarrow>
          (case (py_int rss, py_float pmem, py_float pcpu) of
             (Inr r, Inr m, Inr c) \<Rightarrow> Some (r, m, c)
           | _ \<Rightarrow> None)
      | _ \<Rightarrow> None)"

text \<open>The record in the result of a collection, if there is one.\<close>

definition record_of :: "error + UserStat option \<Rightarrow> UserStat option" where
  "record_of r = (case r of Inl err \<Rightarrow> None | Inr stat \<Rightarrow> stat)"


subsection \<open>Example runs\<close>

definition ok :: "string \<Rightarrow> completed" where
  "ok out = \<lparr>returncode = 0, stdout = Encoded out, stderr = Encoded []\<rparr>"

definition failed :: "string \<Rightarrow> completed" where
  "failed err = \<lparr>returncode = 1, stdout = Encoded [], stderr = Encoded err\<rparr>"

text \<open>A process that fails and writes bytes that are not UTF-8 to its standard error.\<close>

definition garbled :: completed where
  "garbled = \<lparr>returncode = 1, stdout = Encoded [], stderr = Undecodable\<rparr>"

text \<open>
  A group of three: alice has an identity and two processes, bob has no identity and
  one process, carol has neither an identity nor a process table.
\<close>

definition example_shell :: shell where
  "example_shell command =
     (if command = group_command then ok (''alice'' @ [NL] @ ''bob'' @ [NL] @ ''carol'' @ [NL])
      else if command = identity_command ''alice'' then ok ''alice@EXAMPLE''
      else if command = process_command ''alice''
      then ok (''100 1.5 2.0'' @ [NL] @ ''200 0.5 1.0'')
      else if command = process_command ''bob'' then ok (''7 0.25 0.5'' @ [NL])
      else failed ''unknown user'')"

text \<open>The same group when the process table of carol has the line \<^verbatim>\<open>100 abc 2.0\<close>.\<close>

definition malformed_shell :: shell where
  "malformed_shell = example_shell (process_command ''carol'' := ok ''100 abc 2.0'')"

text \<open>The same group when the process table of carol is a blank line.\<close>

definition blank_shell :: shell where
  "blank_shell = example_shell (process_command ''carol'' := ok ('' '' @ [NL]))"

text \<open>The same group when the process table of carol has the line \<^verbatim>\<open>1 inf 0\<close>.\<close>

definition infinite_shell :: shell where
  "infinite_shell = example_shell (process_command ''carol'' := ok ''1 inf 0'')"

text \<open>The group command fails.\<close>

definition no_group_shell :: shell where
  "no_group_shell = example_shell (group_command := failed ''no such group'')"

text \<open>A process that succeeds and writes bytes that are not UTF-8 to its standard output.\<close>

definition garbled_output :: completed where
  "garbled_output = \<lparr>returncode = 0, stdout = Undecodable, stderr = Encoded []\<rparr>"

text \<open>
  The same group when the process-table command of carol fails with a standard error
  that is not UTF-8, when it succeeds with a standard output that is not UTF-8, and when
  the identity command of bob fails with a standard error that is not UTF-8.
\<close>

definition garbled_output_shell :: shell where
  "garbled_output_shell = example_shell (process_command ''carol'' := garbled_output)"

definition garbled_process_shell :: shell where
  "garbled_process_shell = example_shell (process_command ''carol'' := garbled)"

definition garbled_identity_shell :: shell where
  "garbled_identity_shell = example_shell (identity_command ''bob'' := garbled)"

text \<open>A user with three processes and no identity.\<close>

definition three_line_shell :: shell where
  "three_line_shell =
     example_shell (process_command ''dave'' :=
       ok (''1 0.1 0.3'' @ [NL] @ ''2 0.2 0.2'' @ [NL] @ ''3 0.3 0.1''))"

definition io0 :: io where
  "io0 = \<lparr>spawned = [], printed = []\<rparr>"

section \<open>Properties\<close>

subsection \<open>Evaluation\<close>

text \<open>
  The two functions that recur on a number are unfolded on numerals only.
\<close>

declare bitlen.simps [simp del]
declare str_nat.simps [simp del]

lemma bitlen_eval:
  "bitlen 0 = 0"
  "bitlen (Suc 0) = 1"
  "bitlen (numeral k) = Suc (bitlen (numeral k div 2))"
  by (subst bitlen.simps, simp)+

lemma str_nat_eval:
  "str_nat 0 = [digit_char 0]"
  "str_nat (Suc 0) = [digit_char 1]"
  "str_nat (numeral k) =
     (if numeral k < (10::nat) then [digit_char (numeral k)]
      else str_nat (numeral k div 10) @ [digit_char (numeral k mod 10)])"
  by (subst str_nat.simps, simp)+

lemmas text_eval = TAB_def NL_def digit_char_def isspace_def isdigit_def digit_value_def
  is_numeral_space_def lower_def Let_def str_nat_eval strip_def split_def split_sep_def
  strip_numeral_def digits_value_def py_int_def str_int_def int_max_str_digits_def
  process_lines_def

text \<open>
  \<^verbatim>\<open>float(s)\<close> with the sign and the decimal taken apart by projections: the form in which
  a numeral is evaluated.
\<close>

lemma py_float_eval:
  "py_float s =
     (case remove_underscores None (strip_numeral s) of
        None \<Rightarrow> Inl ValueError
      | Some t \<Rightarrow>
          if map lower (snd (take_sign t)) = ''inf'' \<or> map lower (snd (take_sign t)) = ''infinity''
          then Inr (Infinity (fst (take_sign t)))
          else if map lower (snd (take_sign t)) = ''nan'' then Inr NaN
          else (case decimal_part (snd (take_sign t)) of
                  None \<Rightarrow> Inl ValueError
                | Some dx \<Rightarrow> Inr (decimal_double (fst (take_sign t)) (fst dx) (snd dx))))"
  by (simp add: py_float_def split: option.splits prod.splits)

lemmas float_eval = bitlen_eval float_zero_def round_half_even_def binade_near_def binade_def
  pack_def round_to_def round_double_def round_int_def signed_def decimal_double_def
  exponent_part_def after_point_def fraction_digits_def fraction_rest_def decimal_of_def
  decimal_part_def py_float_eval two_digits_def fixed2_def parse_line_def

lemmas repr_eval = decimal_exponent_def pick_def digits_for_def digits_at_def shortest_from_def
  shortest_digits_def rstrip_zeros_def exponent_text_def repr_layout_def

lemmas json_eval = DQ_def BACKSLASH_def json_char_def json_string_def json_float_def
  dict_of_def to_json_def

lemmas shell_eval = ok_def failed_def garbled_def garbled_output_def garbled_output_shell_def example_shell_def malformed_shell_def
  blank_shell_def infinite_shell_def no_group_shell_def garbled_process_shell_def
  garbled_identity_shell_def three_line_shell_def io0_def group_command_def identity_command_def
  process_command_def usernames_of_def decode_def undecodable_def upn_of_def

lemmas eval_cong = prod.case_cong_weak sum.case_cong_weak option.case_cong_weak
  list.case_cong_weak let_weak_cong

subsection \<open>Exceptions of the parts\<close>

lemma py_int_error: "py_int s = Inl err \<Longrightarrow> err = ValueError"
  by (auto simp: py_int_def split: prod.splits option.splits if_splits)

lemma py_float_error: "py_float s = Inl err \<Longrightarrow> err = ValueError"
  by (auto simp: py_float_def split: prod.splits option.splits if_splits)


lemma sum_lines_error: "sum_lines ls acc = Inl err \<Longrightarrow> err = ValueError"
proof (induction ls acc rule: sum_lines.induct)
  case (1 acc)
  then show ?case by simp
next
  case (2 line rest rss_acc pmem_acc pcpu_acc)
  then show ?case
    by (auto split: list.splits sum.splits dest: py_int_error py_float_error)
qed

lemma build_stat_error: "build_stat u upn0 out = Inl err \<Longrightarrow> err = ValueError"
  by (auto simp: build_stat_def split: sum.splits prod.splits dest: sum_lines_error)

subsection \<open>The process table\<close>

lemma sum_lines_Cons:
  "sum_lines (line # rest) (r0, m0, c0) =
     (case parse_line line of
        None \<Rightarrow> Inl ValueError
      | Some (r, m, c) \<Rightarrow> sum_lines rest (r0 + r, float_add m0 m, float_add c0 c))"
  by (auto simp: parse_line_def split: list.splits sum.splits dest: py_int_error py_float_error)

lemma sum_lines_numeric:
  "map parse_line ls = map Some fs \<Longrightarrow>
   sum_lines ls (r0, m0, c0) =
     Inr (r0 + sum_list (map fst fs),
          foldl float_add m0 (map (fst \<circ> snd) fs),
          foldl float_add c0 (map (snd \<circ> snd) fs))"
proof (induction ls arbitrary: fs r0 m0 c0)
  case Nil
  then show ?case by simp
next
  case (Cons l ls)
  then obtain f fs' where fs: "fs = f # fs'" "parse_line l = Some f" "map parse_line ls = map Some fs'"
    by (cases fs) auto
  obtain r m c where f: "f = (r, m, c)" by (cases f)
  show ?case
    using Cons.IH [OF fs(3)] fs(2) by (simp add: sum_lines_Cons fs(1) f del: sum_lines.simps)
qed

lemma sum_lines_malformed:
  "\<exists>l \<in> set ls. parse_line l = None \<Longrightarrow> sum_lines ls acc = Inl ValueError"
proof (induction ls arbitrary: acc)
  case Nil
  then show ?case by simp
next
  case (Cons l ls)
  obtain r0 m0 c0 where acc: "acc = (r0, m0, c0)" by (cases acc)
  show ?case
  proof (cases "parse_line l")
    case None
    then show ?thesis by (simp add: acc sum_lines_Cons del: sum_lines.simps)
  next
    case (Some f)
    with Cons.prems have "\<exists>l \<in> set ls. parse_line l = None" by auto
    then show ?thesis
      using Some by (simp add: acc sum_lines_Cons Cons.IH del: sum_lines.simps split: prod.splits)
  qed
qed

lemma all_dropWhile: "(\<forall>x \<in> set (dropWhile P s). P x) = (\<forall>x \<in> set s. P x)"
  by (induction s) auto

lemma strip_empty: "(strip s = []) = list_all isspace s"
  by (simp add: strip_def dropWhile_eq_Nil_conv list_all_iff all_dropWhile)

lemma parse_line_empty: "parse_line [] = None"
  by (simp add: parse_line_def Spec2Isabelle.split_def)

lemma process_lines_blank:
  assumes "list_all isspace out"
  shows "process_lines out = [[]]"
proof -
  from assms have "strip out = []" by (simp add: strip_empty)
  then show ?thesis by (simp add: process_lines_def split_sep_def)
qed

lemma build_stat_numeric:
  assumes "map parse_line (process_lines out) = map Some nums"
  shows "build_stat u upn0 out =
           Inr (Some \<lparr>username = u,
                       upn = (case upn0 of
                                None \<Rightarrow> None
                              | Some i \<Rightarrow> if i \<noteq> [] then Some (strip i) else None),
                       rss_total = sum_list (map fst nums),
                       pmem_total = foldl float_add float_zero (map (fst \<circ> snd) nums),
                       pcpu_total = foldl float_add float_zero (map (snd \<circ> snd) nums)\<rparr>)"
proof -
  from assms
  have "sum_lines (split_sep NL (strip out)) (0, float_zero, float_zero) =
             Inr (0 + sum_list (map fst nums),
                  foldl float_add float_zero (map (fst \<circ> snd) nums),
                  foldl float_add float_zero (map (snd \<circ> snd) nums))"
    unfolding process_lines_def by (rule sum_lines_numeric)
  then show ?thesis by (simp add: build_stat_def)
qed

lemma build_stat_malformed:
  assumes "\<exists>l \<in> set (process_lines out). parse_line l = None"
  shows "build_stat u upn0 out = Inl ValueError"
proof -
  from assms
  have "sum_lines (split_sep NL (strip out)) (0, float_zero, float_zero) = Inl ValueError"
    unfolding process_lines_def by (rule sum_lines_malformed)
  then show ?thesis by (simp add: build_stat_def)
qed

subsection \<open>Results of coroutines\<close>

lemma run_fst: "fst (run sh c w) = result sh c"
  by (induction c arbitrary: w) simp_all

lemma run_printed: "printed (snd (run sh c w)) = printed w"
  by (induction c arbitrary: w) simp_all

lemma result_of_result: "result sh (of_result r) = r"
  by (cases r) (simp_all add: of_result_def)

lemma result_bind:
  "result sh (bind c rest) =
     (case result sh c of Inl e \<Rightarrow> Inl e | Inr v \<Rightarrow> result sh (rest v))"
  by (induction c) simp_all

lemma result_except:
  "result sh (except_CommandRunException c handler) =
     (case result sh c of
        Inl (CommandRunException msg) \<Rightarrow> result sh handler
      | Inl ValueError \<Rightarrow> Inl ValueError
      | Inl UnicodeDecodeError \<Rightarrow> Inl UnicodeDecodeError
      | Inr v \<Rightarrow> Inr v)"
  by (induction c) (simp_all split: error.splits)

lemma result_run_command:
  "result sh (run_command c) =
     (if returncode (sh c) \<noteq> 0
      then (case stderr (sh c) of
              Encoded text \<Rightarrow>
                Inl (CommandRunException (''Error running command '' @ c @ '': '' @ text))
            | Undecodable \<Rightarrow> Inl UnicodeDecodeError)
      else (case stdout (sh c) of
              Encoded text \<Rightarrow> Inr text
            | Undecodable \<Rightarrow> Inl UnicodeDecodeError))"
  by (simp add: run_command_def decode_def result_of_result split: bytes.splits)

lemma run_run_command:
  "run sh (run_command c) w = (result sh (run_command c), w\<lparr>spawned := spawned w @ [c]\<rparr>)"
  by (simp add: run_command_def decode_def of_result_def split: bytes.splits sum.splits)

lemma get_user_stats_result:
  "result sh (get_user_stats u) =
     (if undecodable (sh (identity_command u)) then Inl UnicodeDecodeError
      else if returncode (sh (process_command u)) \<noteq> 0
      then (case stderr (sh (process_command u)) of
              Encoded msg \<Rightarrow> Inr None
            | Undecodable \<Rightarrow> Inl UnicodeDecodeError)
      else (case stdout (sh (process_command u)) of
              Encoded text \<Rightarrow>
                build_stat u
                  (if returncode (sh (identity_command u)) \<noteq> 0 then None
                   else case stdout (sh (identity_command u)) of
                          Encoded i \<Rightarrow> Some i
                        | Undecodable \<Rightarrow> None)
                  text
            | Undecodable \<Rightarrow> Inl UnicodeDecodeError))"
  by (auto simp: get_user_stats_def result_bind result_except result_run_command
      result_of_result undecodable_def
      split: bytes.splits sum.splits error.splits dest: build_stat_error)

lemma get_user_stats_error:
  "result sh (get_user_stats u) = Inl e \<Longrightarrow> e = ValueError \<or> e = UnicodeDecodeError"
  by (auto simp: get_user_stats_result split: if_splits bytes.splits dest: build_stat_error)

lemma upn_of_build:
  "\<not> undecodable p \<Longrightarrow>
   (case (if returncode p \<noteq> 0 then None
          else case stdout p of Encoded i \<Rightarrow> Some i | Undecodable \<Rightarrow> None) of
      None \<Rightarrow> None
    | Some i \<Rightarrow> if i \<noteq> [] then Some (strip i) else None) = upn_of p"
  by (auto simp: upn_of_def undecodable_def split: bytes.splits)

lemma get_user_stats_numeric:
  assumes "returncode (sh (process_command u)) = 0"
    and "stdout (sh (process_command u)) = Encoded out"
    and "map parse_line (process_lines out) = map Some nums"
  shows "result sh (get_user_stats u) =
           (if undecodable (sh (identity_command u)) then Inl UnicodeDecodeError
            else Inr (Some \<lparr>username = u,
                             upn = upn_of (sh (identity_command u)),
                             rss_total = sum_list (map fst nums),
                             pmem_total = foldl float_add float_zero (map (fst \<circ> snd) nums),
                             pcpu_total = foldl float_add float_zero (map (snd \<circ> snd) nums)\<rparr>))"
  using assms(1,2) build_stat_numeric [OF assms(3)] upn_of_build [of "sh (identity_command u)"]
  by (simp add: get_user_stats_result)

lemma get_user_stats_malformed:
  assumes "returncode (sh (process_command u)) = 0"
    and "stdout (sh (process_command u)) = Encoded out"
    and "\<exists>l \<in> set (process_lines out). parse_line l = None"
  shows "result sh (get_user_stats u) =
           (if undecodable (sh (identity_command u)) then Inl UnicodeDecodeError
            else Inl ValueError)"
  using assms(1,2) build_stat_malformed [OF assms(3)] by (simp add: get_user_stats_result)

subsection \<open>Gathering\<close>

lemma continue_started: "result sh (continue sh (started c)) = result sh c"
  by (cases c) (simp_all add: of_result_def)

lemma raised_fate: "raised t = Some e \<Longrightarrow> result sh (continue sh t) = Inl e"
  by (cases t) (auto simp: of_result_def split: sum.splits)

lemma first_raised_None: "first_raised ts = None \<Longrightarrow> \<forall>t \<in> set ts. raised t = None"
  by (induction ts) (auto split: option.splits)

lemma first_raised_Some: "first_raised ts = Some e \<Longrightarrow> \<exists>t \<in> set ts. raised t = Some e"
  by (induction ts) (auto split: option.splits)

lemma complete_all_returns:
  "(fst (complete_all sh ts w) = Inr vs) =
     (map (\<lambda>t. result sh (continue sh t)) ts = map Inr vs)"
proof (induction ts arbitrary: w vs)
  case Nil
  then show ?case by auto
next
  case (Cons t ts)
  obtain r w1 where r: "run sh (continue sh t) w = (r, w1)" by (cases "run sh (continue sh t) w")
  then have f: "result sh (continue sh t) = r" using run_fst [of sh "continue sh t" w] by simp
  show ?case
  proof (cases r)
    case (Inl e)
    then show ?thesis using r f by auto
  next
    case (Inr v)
    obtain rs w2 where rs: "complete_all sh ts w1 = (rs, w2)" by (cases "complete_all sh ts w1")
    show ?thesis
    proof (cases rs)
      case (Inl e)
      with Cons.IH [of w1] rs have "\<And>vs'. map (\<lambda>t. result sh (continue sh t)) ts \<noteq> map Inr vs'"
        by auto
      then show ?thesis using r f Inr rs Inl by (cases vs) auto
    next
      case (Inr vs')
      with Cons.IH [of w1 vs'] rs
      have "map (\<lambda>t. result sh (continue sh t)) ts = map Inr vs'" by simp
      then show ?thesis using r f \<open>r = Inr v\<close> rs Inr by (cases vs) (auto simp: inj_map_eq_map [OF inj_Inr])
    qed
  qed
qed

lemma complete_all_raises:
  "fst (complete_all sh ts w) = Inl e \<Longrightarrow> \<exists>t \<in> set ts. result sh (continue sh t) = Inl e"
proof (induction ts arbitrary: w)
  case Nil
  then show ?case by simp
next
  case (Cons t ts)
  obtain r w1 where r: "run sh (continue sh t) w = (r, w1)" by (cases "run sh (continue sh t) w")
  then have f: "result sh (continue sh t) = r" using run_fst [of sh "continue sh t" w] by simp
  show ?case
  proof (cases r)
    case (Inl e')
    then show ?thesis using Cons.prems r f by auto
  next
    case (Inr v)
    then have "fst (complete_all sh ts w1) = Inl e"
      using Cons.prems r by (auto split: prod.splits sum.splits)
    from Cons.IH [OF this] show ?thesis by auto
  qed
qed

lemma complete_all_printed: "printed (snd (complete_all sh ts w)) = printed w"
proof (induction ts arbitrary: w)
  case Nil
  then show ?case by simp
next
  case (Cons t ts)
  obtain r w1 where r: "run sh (continue sh t) w = (r, w1)" by (cases "run sh (continue sh t) w")
  then have p: "printed w1 = printed w" using run_printed [of sh "continue sh t" w] by simp
  show ?case using r p Cons.IH [of w1] by (auto split: sum.splits prod.splits)
qed

lemma event_loop_returns:
  assumes "first = None \<longrightarrow> (\<forall>t \<in> set tasks. raised t = None)"
    and "\<forall>e. first = Some e \<longrightarrow> (\<exists>t \<in> set tasks. result sh (continue sh t) = Inl e)"
  shows "(fst (event_loop sh turns tasks first w) = Inr vs) =
           (map (\<lambda>t. result sh (continue sh t)) tasks = map Inr vs)"
  using assms
proof (induction sh turns tasks first w rule: event_loop.induct)
  case (1 sh tasks first w)
  show ?case
  proof (cases first)
    case None
    then show ?thesis by (simp add: complete_all_returns)
  next
    case (Some e)
    with 1 obtain t where "t \<in> set tasks" "result sh (continue sh t) = Inl e" by auto
    then have "map (\<lambda>t. result sh (continue sh t)) tasks \<noteq> map Inr vs"
      by (metis (mono_tags, lifting) Inl_Inr_False imageE imageI list.set_map)
    with Some show ?thesis by simp
  qed
next
  case (2 sh turns tasks first w)
  then show ?case by simp
next
  case (3 sh i turns tasks first w)
  show ?case
  proof (cases "i < length tasks \<and> waiting (tasks ! i)")
    case False
    then have "event_loop sh (Worker i # turns) tasks first w = event_loop sh turns tasks first w"
      by auto
    with 3(2) [OF False 3(3) 3(4)] show ?thesis by (simp only:)
  next
    case True
    define c where "c = continue sh (tasks ! i)"
    define tasks' where "tasks' = tasks[i := started c]"
    define first' where "first' = (if first = None then raised (started c) else first)"
    have same: "map (\<lambda>t. result sh (continue sh t)) tasks' =
                map (\<lambda>t. result sh (continue sh t)) tasks"
      using True
      by (simp add: tasks'_def c_def map_update continue_started list_update_same_conv)
    have a: "first' = None \<longrightarrow> (\<forall>t \<in> set tasks'. raised t = None)"
    proof
      assume n: "first' = None"
      then have "first = None" "raised (started c) = None"
        by (auto simp: first'_def split: if_splits)
      with 3(3) have "\<forall>t \<in> insert (started c) (set tasks). raised t = None" by simp
      then show "\<forall>t \<in> set tasks'. raised t = None"
        using set_update_subset_insert [of tasks i "started c"] by (auto simp: tasks'_def)
    qed
    have b: "\<forall>e. first' = Some e \<longrightarrow> (\<exists>t \<in> set tasks'. result sh (continue sh t) = Inl e)"
    proof (intro allI impI)
      fix e
      assume s: "first' = Some e"
      have "Inl e \<in> set (map (\<lambda>t. result sh (continue sh t)) tasks')"
      proof (cases first)
        case None
        with s have "raised (started c) = Some e" by (simp add: first'_def)
        then have "result sh (continue sh (started c)) = Inl e" by (rule raised_fate)
        moreover have "started c \<in> set tasks'"
          using True by (simp add: tasks'_def set_update_memI)
        ultimately show ?thesis by force
      next
        case (Some e')
        with s have "first = Some e" by (simp add: first'_def)
        with 3(4) have "Inl e \<in> set (map (\<lambda>t. result sh (continue sh t)) tasks)" by force
        then show ?thesis by (simp only: same)
      qed
      then show "\<exists>t \<in> set tasks'. result sh (continue sh t) = Inl e" by auto
    qed
    have "event_loop sh (Worker i # turns) tasks first w =
            event_loop sh turns tasks' first' (w\<lparr>spawned := spawned w @ starts c\<rparr>)"
      using True unfolding c_def tasks'_def first'_def by (simp split del: if_split)
    with 3(1) [OF True, folded c_def, folded tasks'_def first'_def, OF a b] same
    show ?thesis by (simp only:)
  qed
qed

lemma event_loop_raises:
  assumes "first = None \<longrightarrow> (\<forall>t \<in> set tasks. raised t = None)"
    and "\<forall>e. first = Some e \<longrightarrow> (\<exists>t \<in> set tasks. result sh (continue sh t) = Inl e)"
    and "fst (event_loop sh turns tasks first w) = Inl e"
  shows "\<exists>t \<in> set tasks. result sh (continue sh t) = Inl e"
  using assms
proof (induction sh turns tasks first w rule: event_loop.induct)
  case (1 sh tasks first w)
  show ?case
  proof (cases first)
    case None
    with 1(3) show ?thesis by (simp add: complete_all_raises)
  next
    case (Some e')
    with 1 show ?thesis by auto
  qed
next
  case (2 sh turns tasks first w)
  then show ?case by (simp split: if_splits)
next
  case (3 sh i turns tasks first w)
  show ?case
  proof (cases "i < length tasks \<and> waiting (tasks ! i)")
    case False
    then have "event_loop sh (Worker i # turns) tasks first w = event_loop sh turns tasks first w"
      by auto
    with 3(2) [OF False 3(3) 3(4)] 3(5) show ?thesis by (simp only:)
  next
    case True
    define c where "c = continue sh (tasks ! i)"
    define tasks' where "tasks' = tasks[i := started c]"
    define first' where "first' = (if first = None then raised (started c) else first)"
    have same: "map (\<lambda>t. result sh (continue sh t)) tasks' =
                map (\<lambda>t. result sh (continue sh t)) tasks"
      using True
      by (simp add: tasks'_def c_def map_update continue_started list_update_same_conv)
    have a: "first' = None \<longrightarrow> (\<forall>t \<in> set tasks'. raised t = None)"
    proof
      assume n: "first' = None"
      then have "first = None" "raised (started c) = None"
        by (auto simp: first'_def split: if_splits)
      with 3(3) have "\<forall>t \<in> insert (started c) (set tasks). raised t = None" by simp
      then show "\<forall>t \<in> set tasks'. raised t = None"
        using set_update_subset_insert [of tasks i "started c"] by (auto simp: tasks'_def)
    qed
    have b: "\<forall>e. first' = Some e \<longrightarrow> (\<exists>t \<in> set tasks'. result sh (continue sh t) = Inl e)"
    proof (intro allI impI)
      fix e
      assume s: "first' = Some e"
      have "Inl e \<in> set (map (\<lambda>t. result sh (continue sh t)) tasks')"
      proof (cases first)
        case None
        with s have "raised (started c) = Some e" by (simp add: first'_def)
        then have "result sh (continue sh (started c)) = Inl e" by (rule raised_fate)
        moreover have "started c \<in> set tasks'"
          using True by (simp add: tasks'_def set_update_memI)
        ultimately show ?thesis by force
      next
        case (Some e')
        with s have "first = Some e" by (simp add: first'_def)
        with 3(4) have "Inl e \<in> set (map (\<lambda>t. result sh (continue sh t)) tasks)" by force
        then show ?thesis by (simp only: same)
      qed
      then show "\<exists>t \<in> set tasks'. result sh (continue sh t) = Inl e" by auto
    qed
    have "fst (event_loop sh turns tasks' first'
                 (w\<lparr>spawned := spawned w @ starts c\<rparr>)) = Inl e"
      using 3(5) True unfolding c_def tasks'_def first'_def by (simp split del: if_split)
    from 3(1) [OF True, folded c_def, folded tasks'_def first'_def, OF a b this]
    have "Inl e \<in> set (map (\<lambda>t. result sh (continue sh t)) tasks')" by force
    then have "Inl e \<in> set (map (\<lambda>t. result sh (continue sh t)) tasks)" by (simp only: same)
    then show ?thesis by auto
  qed
qed

lemma event_loop_printed: "printed (snd (event_loop sh turns tasks first w)) = printed w"
  by (induction sh turns tasks first w rule: event_loop.induct)
    (simp_all add: complete_all_printed split: option.splits)

lemma started_fates:
  "map (\<lambda>t. result sh (continue sh t)) (map started cs) = map (result sh) cs"
  by (simp add: continue_started)

lemma gather_returns:
  "(fst (gather sh turns cs w) = Inr vs) = (map (result sh) cs = map Inr vs)"
proof -
  have a: "first_raised (map started cs) = None \<longrightarrow>
             (\<forall>t \<in> set (map started cs). raised t = None)"
    using first_raised_None by blast
  have b: "\<forall>e. first_raised (map started cs) = Some e \<longrightarrow>
             (\<exists>t \<in> set (map started cs). result sh (continue sh t) = Inl e)"
    using first_raised_Some raised_fate by blast
  show ?thesis
    unfolding gather_def event_loop_returns [OF a b] started_fates ..
qed

lemma gather_raises:
  assumes "fst (gather sh turns cs w) = Inl e"
  shows "\<exists>c \<in> set cs. result sh c = Inl e"
proof -
  have a: "first_raised (map started cs) = None \<longrightarrow>
             (\<forall>t \<in> set (map started cs). raised t = None)"
    using first_raised_None by blast
  have b: "\<forall>e. first_raised (map started cs) = Some e \<longrightarrow>
             (\<exists>t \<in> set (map started cs). result sh (continue sh t) = Inl e)"
    using first_raised_Some raised_fate by blast
  from event_loop_raises [OF a b assms [unfolded gather_def]]
  have "Inl e \<in> set (map (\<lambda>t. result sh (continue sh t)) (map started cs))" by force
  then have "Inl e \<in> set (map (result sh) cs)" by (simp only: started_fates)
  then show ?thesis by auto
qed

lemma gather_printed: "printed (snd (gather sh turns cs w)) = printed w"
  by (simp add: gather_def event_loop_printed)

lemma gather_starts:
  "prefix (spawned w @ concat (map starts cs)) (spawned (snd (gather sh turns cs w)))"
proof -
  have r: "prefix (spawned w) (spawned (snd (run sh c w)))" for c :: "'a coroutine" and w sh
  proof (induction c arbitrary: w)
    case (Await command k)
    have "prefix (spawned w) (spawned (w\<lparr>spawned := spawned w @ [command]\<rparr>))" by simp
    also have "prefix \<dots> (spawned (snd (run sh (k (sh command))
                               (w\<lparr>spawned := spawned w @ [command]\<rparr>))))"
      using Await by blast
    finally show ?case by simp
  qed simp_all
  have c: "prefix (spawned w) (spawned (snd (complete_all sh ts w)))"
    for ts :: "'a task list" and w sh
  proof (induction ts arbitrary: w)
    case Nil
    then show ?case by simp
  next
    case (Cons t ts)
    obtain x w1 where x: "run sh (continue sh t) w = (x, w1)"
      by (cases "run sh (continue sh t) w")
    then have p: "prefix (spawned w) (spawned w1)" using r [where c = "continue sh t" and w = w and sh = sh] by simp
    show ?case
    proof (cases x)
      case (Inl e)
      with x p show ?thesis by simp
    next
      case (Inr v)
      have "prefix (spawned w1) (spawned (snd (complete_all sh ts w1)))" by (rule Cons.IH)
      with p have "prefix (spawned w) (spawned (snd (complete_all sh ts w1)))"
        by (rule prefix_order.trans)
      with x Inr show ?thesis by (auto split: prod.splits sum.splits)
    qed
  qed
  have e: "prefix (spawned w) (spawned (snd (event_loop sh turns tasks first w)))"
    for tasks :: "'a task list" and first w
  proof (induction sh turns tasks first w rule: event_loop.induct)
    case (1 sh tasks first w)
    then show ?case using c by (simp split: option.splits)
  next
    case (2 sh turns tasks first w)
    then show ?case by simp
  next
    case (3 sh i turns tasks first w)
    show ?case
    proof (cases "i < length tasks \<and> waiting (tasks ! i)")
      case True
      have "prefix (spawned w)
              (spawned (w\<lparr>spawned := spawned w @ starts (continue sh (tasks ! i))\<rparr>))"
        by simp
      also note 3(1) [OF True]
      finally show ?thesis using True by (simp split del: if_split)
    next
      case False
      then have "event_loop sh (Worker i # turns) tasks first w =
                   event_loop sh turns tasks first w"
        by auto
      with 3(2) [OF False] show ?thesis by (simp only:)
    qed
  qed
  show ?thesis
    using e [of "w\<lparr>spawned := spawned w @ concat (map starts cs)\<rparr>"]
    by (simp add: gather_def)
qed

lemma somes_map_filter: "[stat. Some stat \<leftarrow> map f xs] = List.map_filter f xs"
  by (induction xs) (auto simp: List.map_filter_def split: option.splits)

lemma somes_map_filter_comp:
  "concat (map (case_option [] (\<lambda>stat. [stat]) \<circ> f) xs) = List.map_filter f xs"
  by (induction xs) (auto simp: List.map_filter_def split: option.splits)

lemma collect_all_fst:
  "fst (collect_all sh turns us w) =
     (case fst (gather sh turns (map get_user_stats us) w) of
        Inl err \<Rightarrow> Inl err
      | Inr user_stats \<Rightarrow> Inr [stat. Some stat \<leftarrow> user_stats])"
  by (simp add: collect_all_def split: prod.splits sum.splits)

lemma collect_all_printed: "printed (snd (collect_all sh turns us w)) = printed w"
proof -
  obtain r w' where g: "gather sh turns (map get_user_stats us) w = (r, w')"
    by (cases "gather sh turns (map get_user_stats us) w")
  with gather_printed [of sh turns "map get_user_stats us" w] have "printed w' = printed w"
    by simp
  with g show ?thesis by (simp add: collect_all_def split: sum.splits)
qed

lemma collect_all_closed:
  assumes "\<forall>u \<in> set us. \<forall>e. result sh (get_user_stats u) \<noteq> Inl e"
  shows "fst (collect_all sh turns us w) =
           Inr (List.map_filter (\<lambda>u. record_of (result sh (get_user_stats u))) us)"
proof -
  define vs where "vs = map (\<lambda>u. record_of (result sh (get_user_stats u))) us"
  have "map (result sh) (map get_user_stats us) = map Inr vs"
    using assms by (auto simp: vs_def record_of_def split: sum.splits)
  then have "fst (gather sh turns (map get_user_stats us) w) = Inr vs"
    by (simp only: gather_returns)
  then show ?thesis
    by (simp add: collect_all_fst vs_def somes_map_filter_comp)
qed

lemma collect_all_raises:
  assumes "fst (collect_all sh turns us w) = Inl e"
  shows "\<exists>u \<in> set us. result sh (get_user_stats u) = Inl e"
proof -
  from assms have "fst (gather sh turns (map get_user_stats us) w) = Inl e"
    by (simp add: collect_all_fst split: sum.splits)
  from gather_raises [OF this] show ?thesis by auto
qed

lemma collect_all_fails:
  assumes "u \<in> set us" and "result sh (get_user_stats u) = Inl e"
  shows "\<exists>e'. fst (collect_all sh turns us w) = Inl e'"
proof (cases "fst (gather sh turns (map get_user_stats us) w)")
  case (Inl e')
  then show ?thesis by (simp add: collect_all_fst)
next
  case (Inr vs)
  then have "map (result sh) (map get_user_stats us) = map Inr vs"
    by (simp only: gather_returns)
  then have "\<forall>v \<in> set us. \<exists>r. result sh (get_user_stats v) = Inr r"
    by (metis (no_types, lifting) imageE imageI list.set_map map_map o_apply)
  with assms show ?thesis by force
qed

lemma collect_all_returns:
  assumes "fst (collect_all sh turns us w) = Inr stats"
  shows "(\<forall>u \<in> set us. \<forall>e. result sh (get_user_stats u) \<noteq> Inl e)
         \<and> stats = List.map_filter (\<lambda>u. record_of (result sh (get_user_stats u))) us"
proof -
  have n: "\<forall>u \<in> set us. \<forall>e. result sh (get_user_stats u) \<noteq> Inl e"
  proof (intro ballI allI notI)
    fix u e
    assume "u \<in> set us" "result sh (get_user_stats u) = Inl e"
    from collect_all_fails [OF this, of turns w] assms show False by simp
  qed
  from collect_all_closed [OF n, of turns w] assms n show ?thesis by simp
qed

subsection \<open>The whole run\<close>

lemma main_group_raises:
  "result sh (run_command group_command) = Inl e \<Longrightarrow>
   main sh turns fmt w = (Inl e, w\<lparr>spawned := spawned w @ [group_command]\<rparr>)"
  by (simp add: main_def run_run_command)

lemma main_group_returns:
  "result sh (run_command group_command) = Inr names \<Longrightarrow>
   main sh turns fmt w =
     (case collect_all sh turns (usernames_of names)
             (w\<lparr>spawned := spawned w @ [group_command]\<rparr>) of
        (Inl err, w2) \<Rightarrow> (Inl err, w2)
      | (Inr stats, w2) \<Rightarrow> print_stats stats fmt w2)"
  by (simp add: main_def run_run_command)

lemma main_raises:
  assumes "result sh (run_command group_command) = Inr names"
    and "u \<in> set (usernames_of names)"
    and "result sh (get_user_stats u) = Inl e"
  shows "\<exists>e'. fst (main sh turns fmt w) = Inl e'
           \<and> (\<exists>v \<in> set (usernames_of names). result sh (get_user_stats v) = Inl e')
           \<and> printed (snd (main sh turns fmt w)) = printed w"
proof -
  define w1 where "w1 = w\<lparr>spawned := spawned w @ [group_command]\<rparr>"
  obtain r w2 where c: "collect_all sh turns (usernames_of names) w1 = (r, w2)"
    by (cases "collect_all sh turns (usernames_of names) w1")
  from collect_all_fails [OF assms(2,3), of turns w1] c obtain e' where e': "r = Inl e'"
    by auto
  with c have "fst (collect_all sh turns (usernames_of names) w1) = Inl e'" by simp
  from collect_all_raises [OF this]
  have v: "\<exists>v \<in> set (usernames_of names). result sh (get_user_stats v) = Inl e'" .
  have "printed w2 = printed w"
    using collect_all_printed [of sh turns "usernames_of names" w1] c by (simp add: w1_def)
  with v c e' show ?thesis
    by (simp add: main_group_returns [OF assms(1)] w1_def)
qed

lemma script_raises:
  assumes "result sh (run_command group_command) = Inr names"
    and "u \<in> set (usernames_of names)"
    and "result sh (get_user_stats u) = Inl e"
  shows "exit_status (script sh turns fmt) = 1 \<and> report (script sh turns fmt) = []
         \<and> (\<exists>e'. traceback (script sh turns fmt) = Some e'
                \<and> (\<exists>v \<in> set (usernames_of names). result sh (get_user_stats v) = Inl e'))"
proof -
  obtain r w where m: "main sh turns fmt \<lparr>spawned = [], printed = []\<rparr> = (r, w)"
    by (cases "main sh turns fmt \<lparr>spawned = [], printed = []\<rparr>")
  from main_raises [OF assms, of turns fmt "\<lparr>spawned = [], printed = []\<rparr>"] m
  obtain e' where "r = Inl e'"
    and "\<exists>v \<in> set (usernames_of names). result sh (get_user_stats v) = Inl e'"
    and "printed w = []"
    by auto
  with m show ?thesis by (simp add: script_def)
qed

subsection \<open>The example users\<close>

lemma get_user_stats_cong:
  assumes "sh (identity_command u) = sh' (identity_command u)"
    and "sh (process_command u) = sh' (process_command u)"
  shows "result sh (get_user_stats u) = result sh' (get_user_stats u)"
  unfolding get_user_stats_result assms by (rule refl)

lemma float_add_zero_left: "float_add float_zero (Finite s (numeral n) e) = Finite s (numeral n) e"
  by (simp add: float_zero_def)

lemma alice_commands:
  "returncode (example_shell (identity_command ''alice'')) = 0"
  "stdout (example_shell (identity_command ''alice'')) = Encoded ''alice@EXAMPLE''"
  "returncode (example_shell (process_command ''alice'')) = 0"
  "stdout (example_shell (process_command ''alice'')) =
     Encoded (''100 1.5 2.0'' @ [NL] @ ''200 0.5 1.0'')"
  by (simp_all add: shell_eval NL_def)

lemma alice_identity:
  "\<not> undecodable (example_shell (identity_command ''alice''))"
  "upn_of (example_shell (identity_command ''alice'')) = Some ''alice@EXAMPLE''"
  by (simp_all add: shell_eval text_eval)

lemma alice_lines:
  "process_lines (''100 1.5 2.0'' @ [NL] @ ''200 0.5 1.0'') = [''100 1.5 2.0'', ''200 0.5 1.0'']"
  by (simp add: text_eval)

lemma alice_line1:
  "parse_line ''100 1.5 2.0'' =
     Some (100, Finite False 6755399441055744 (- 52), Finite False 4503599627370496 (- 51))"
  by (simp add: text_eval float_eval split del: if_split cong: eval_cong)

lemma alice_line2:
  "parse_line ''200 0.5 1.0'' =
     Some (200, Finite False 4503599627370496 (- 53), Finite False 4503599627370496 (- 52))"
  by (simp add: text_eval float_eval split del: if_split cong: eval_cong)

lemma alice_parsed:
  "map parse_line (process_lines (''100 1.5 2.0'' @ [NL] @ ''200 0.5 1.0'')) =
     map Some [(100, Finite False 6755399441055744 (- 52), Finite False 4503599627370496 (- 51)),
               (200, Finite False 4503599627370496 (- 53), Finite False 4503599627370496 (- 52))]"
  by (simp only: alice_lines list.map alice_line1 alice_line2)

lemma alice_pmem:
  "float_add (Finite False 6755399441055744 (- 52)) (Finite False 4503599627370496 (- 53)) =
     Finite False 4503599627370496 (- 51)"
  by (simp add: float_eval split del: if_split cong: eval_cong)

lemma alice_pcpu:
  "float_add (Finite False 4503599627370496 (- 51)) (Finite False 4503599627370496 (- 52)) =
     Finite False 6755399441055744 (- 51)"
  by (simp add: float_eval split del: if_split cong: eval_cong)

lemma alice_result:
  "result example_shell (get_user_stats ''alice'') =
     Inr (Some \<lparr>username = ''alice'', upn = Some ''alice@EXAMPLE'', rss_total = 300,
                 pmem_total = Finite False 4503599627370496 (- 51),
                 pcpu_total = Finite False 6755399441055744 (- 51)\<rparr>)"
  using get_user_stats_numeric [of example_shell "''alice''", OF alice_commands(3,4) alice_parsed]
  by (simp add: alice_identity float_add_zero_left alice_pmem alice_pcpu del: float_add.simps)

lemma alice_row:
  "to_table_row \<lparr>username = ''alice'', upn = Some ''alice@EXAMPLE'', rss_total = 300,
                  pmem_total = Finite False 4503599627370496 (- 51),
                  pcpu_total = Finite False 6755399441055744 (- 51)\<rparr> =
     Inr (''alice'' @ [TAB] @ ''alice@EXAMPLE'' @ [TAB] @ ''300'' @ [TAB] @ ''2.00'' @ [TAB]
          @ ''3.00'')"
  by (simp add: to_table_row_def text_eval float_eval split del: if_split cong: eval_cong)

lemma two_and_three:
  "py_float ''2.0'' = Inr (Finite False 4503599627370496 (- 51))"
  "py_float ''3.0'' = Inr (Finite False 6755399441055744 (- 51))"
  by (simp_all add: text_eval float_eval split del: if_split cong: eval_cong)

lemma bob_commands:
  "returncode (example_shell (identity_command ''bob'')) \<noteq> 0"
  "stderr (example_shell (identity_command ''bob'')) = Encoded ''unknown user''"
  "returncode (example_shell (process_command ''bob'')) = 0"
  "stdout (example_shell (process_command ''bob'')) = Encoded (''7 0.25 0.5'' @ [NL])"
  by (simp_all add: shell_eval NL_def)

lemma bob_identity:
  "\<not> undecodable (example_shell (identity_command ''bob''))"
  "upn_of (example_shell (identity_command ''bob'')) = None"
  by (simp_all add: shell_eval)

lemma bob_lines: "process_lines (''7 0.25 0.5'' @ [NL]) = [''7 0.25 0.5'']"
  by (simp add: text_eval)

lemma bob_line:
  "parse_line ''7 0.25 0.5'' =
     Some (7, Finite False 4503599627370496 (- 54), Finite False 4503599627370496 (- 53))"
  by (simp add: text_eval float_eval split del: if_split cong: eval_cong)

lemma bob_parsed:
  "map parse_line (process_lines (''7 0.25 0.5'' @ [NL])) =
     map Some [(7, Finite False 4503599627370496 (- 54), Finite False 4503599627370496 (- 53))]"
  by (simp only: bob_lines list.map bob_line)

lemma bob_result:
  "result example_shell (get_user_stats ''bob'') =
     Inr (Some \<lparr>username = ''bob'', upn = None, rss_total = 7,
                 pmem_total = Finite False 4503599627370496 (- 54),
                 pcpu_total = Finite False 4503599627370496 (- 53)\<rparr>)"
  using get_user_stats_numeric [of example_shell "''bob''", OF bob_commands(3,4) bob_parsed]
  by (simp add: bob_identity float_add_zero_left del: float_add.simps)


lemma carol_commands:
  "\<not> undecodable (example_shell (identity_command ''carol''))"
  "returncode (example_shell (process_command ''carol'')) \<noteq> 0"
  "stderr (example_shell (process_command ''carol'')) = Encoded ''unknown user''"
  by (simp_all add: shell_eval)

lemma carol_result: "result example_shell (get_user_stats ''carol'') = Inr None"
  by (simp add: get_user_stats_result carol_commands)

lemma example_group:
  "returncode (example_shell group_command) = 0"
  "stdout (example_shell group_command) =
     Encoded (''alice'' @ [NL] @ ''bob'' @ [NL] @ ''carol'' @ [NL])"
  "usernames_of (''alice'' @ [NL] @ ''bob'' @ [NL] @ ''carol'' @ [NL]) =
     [''alice'', ''bob'', ''carol'']"
  "result example_shell (run_command group_command) =
     Inr (''alice'' @ [NL] @ ''bob'' @ [NL] @ ''carol'' @ [NL])"
  by (simp_all add: shell_eval text_eval result_run_command)

text \<open>The shells that differ from the example at one command.\<close>

lemma changed_shell:
  "c \<noteq> c' \<Longrightarrow> (example_shell (c' := p)) c = example_shell c"
  by simp

lemma distinct_commands:
  "identity_command u \<noteq> process_command v"
  "process_command v \<noteq> identity_command u"
  "group_command \<noteq> process_command v"
  "group_command \<noteq> identity_command u"
  "process_command v \<noteq> group_command"
  "identity_command u \<noteq> group_command"
  "(process_command u = process_command v) = (u = v)"
  "(identity_command u = identity_command v) = (u = v)"
  by (simp_all add: identity_command_def process_command_def group_command_def)

lemma example_decodable: "\<not> undecodable (example_shell c)"
  by (simp add: example_shell_def ok_def failed_def undecodable_def)

lemma changed_decodable:
  "\<not> undecodable (malformed_shell c)"
  "\<not> undecodable (blank_shell c)"
  "\<not> undecodable (infinite_shell c)"
  "\<not> undecodable (three_line_shell c)"
  using example_decodable [of c]
  by (auto simp: malformed_shell_def blank_shell_def infinite_shell_def three_line_shell_def
      ok_def undecodable_def split: if_splits)

lemma get_user_stats_undecodable:
  "result sh (get_user_stats u) = Inl UnicodeDecodeError \<Longrightarrow>
   undecodable (sh (identity_command u)) \<or> undecodable (sh (process_command u))"
  by (auto simp: get_user_stats_result undecodable_def
      split: if_splits bytes.splits dest: build_stat_error)

lemma script_aborts:
  assumes "returncode (sh group_command) = 0"
    and "stdout (sh group_command) = Encoded names"
    and "u \<in> set (usernames_of names)"
    and "result sh (get_user_stats u) = Inl e"
  shows "exit_status (script sh turns fmt) = 1 \<and> report (script sh turns fmt) = []
         \<and> (traceback (script sh turns fmt) = Some ValueError
            \<or> traceback (script sh turns fmt) = Some UnicodeDecodeError)
         \<and> ((\<forall>v \<in> set (usernames_of names).
                \<not> undecodable (sh (identity_command v))
                \<and> \<not> undecodable (sh (process_command v))) \<longrightarrow>
            traceback (script sh turns fmt) = Some ValueError)"
proof -
  have g: "result sh (run_command group_command) = Inr names"
    using assms(1,2) by (simp add: result_run_command)
  from script_raises [OF g assms(3,4), of turns fmt]
  obtain e' v where s: "exit_status (script sh turns fmt) = 1" "report (script sh turns fmt) = []"
    "traceback (script sh turns fmt) = Some e'" "v \<in> set (usernames_of names)"
    "result sh (get_user_stats v) = Inl e'"
    by auto
  from get_user_stats_error [OF s(5)] have e': "e' = ValueError \<or> e' = UnicodeDecodeError" .
  have "e' = ValueError"
    if "\<forall>v \<in> set (usernames_of names).
          \<not> undecodable (sh (identity_command v)) \<and> \<not> undecodable (sh (process_command v))"
    using that s(4,5) e' get_user_stats_undecodable [of sh v] by auto
  with s e' show ?thesis by auto
qed

lemma dave_commands:
  "returncode (three_line_shell (process_command ''dave'')) = 0"
  "stdout (three_line_shell (process_command ''dave'')) =
     Encoded (''1 0.1 0.3'' @ [NL] @ ''2 0.2 0.2'' @ [NL] @ ''3 0.3 0.1'')"
  "upn_of (three_line_shell (identity_command ''dave'')) = None"
  by (simp_all add: shell_eval NL_def)

lemma dave_lines:
  "process_lines (''1 0.1 0.3'' @ [NL] @ ''2 0.2 0.2'' @ [NL] @ ''3 0.3 0.1'') =
     [''1 0.1 0.3'', ''2 0.2 0.2'', ''3 0.3 0.1'']"
  by (simp add: text_eval)

lemma dave_line1:
  "parse_line ''1 0.1 0.3'' =
     Some (1, Finite False 7205759403792794 (- 56), Finite False 5404319552844595 (- 54))"
  by (simp add: text_eval float_eval split del: if_split cong: eval_cong)

lemma dave_line2:
  "parse_line ''2 0.2 0.2'' =
     Some (2, Finite False 7205759403792794 (- 55), Finite False 7205759403792794 (- 55))"
  by (simp add: text_eval float_eval split del: if_split cong: eval_cong)

lemma dave_line3:
  "parse_line ''3 0.3 0.1'' =
     Some (3, Finite False 5404319552844595 (- 54), Finite False 7205759403792794 (- 56))"
  by (simp add: text_eval float_eval split del: if_split cong: eval_cong)

lemma dave_parsed:
  "map parse_line (process_lines (''1 0.1 0.3'' @ [NL] @ ''2 0.2 0.2'' @ [NL] @ ''3 0.3 0.1'')) =
     map Some [(1, Finite False 7205759403792794 (- 56), Finite False 5404319552844595 (- 54)),
               (2, Finite False 7205759403792794 (- 55), Finite False 7205759403792794 (- 55)),
               (3, Finite False 5404319552844595 (- 54), Finite False 7205759403792794 (- 56))]"
  by (simp only: dave_lines list.map dave_line1 dave_line2 dave_line3)

lemma dave_pmem:
  "float_add (Finite False 7205759403792794 (- 56)) (Finite False 7205759403792794 (- 55)) =
     Finite False 5404319552844596 (- 54)"
  "float_add (Finite False 5404319552844596 (- 54)) (Finite False 5404319552844595 (- 54)) =
     Finite False 5404319552844596 (- 53)"
  by (simp_all add: float_eval split del: if_split cong: eval_cong)

lemma dave_pcpu:
  "float_add (Finite False 5404319552844595 (- 54)) (Finite False 7205759403792794 (- 55)) =
     Finite False 4503599627370496 (- 53)"
  "float_add (Finite False 4503599627370496 (- 53)) (Finite False 7205759403792794 (- 56)) =
     Finite False 5404319552844595 (- 53)"
  by (simp_all add: float_eval split del: if_split cong: eval_cong)

lemma dave_sums:
  "sum_list (map fst
     [(1::int, Finite False 7205759403792794 (- 56), Finite False 5404319552844595 (- 54)),
      (2, Finite False 7205759403792794 (- 55), Finite False 7205759403792794 (- 55)),
      (3, Finite False 5404319552844595 (- 54), Finite False 7205759403792794 (- 56))]) = 6"
  "foldl float_add float_zero (map (fst \<circ> snd)
     [(1::int, Finite False 7205759403792794 (- 56), Finite False 5404319552844595 (- 54)),
      (2, Finite False 7205759403792794 (- 55), Finite False 7205759403792794 (- 55)),
      (3, Finite False 5404319552844595 (- 54), Finite False 7205759403792794 (- 56))]) =
     Finite False 5404319552844596 (- 53)"
  "foldl float_add float_zero (map (snd \<circ> snd)
     [(1::int, Finite False 7205759403792794 (- 56), Finite False 5404319552844595 (- 54)),
      (2, Finite False 7205759403792794 (- 55), Finite False 7205759403792794 (- 55)),
      (3, Finite False 5404319552844595 (- 54), Finite False 7205759403792794 (- 56))]) =
     Finite False 5404319552844595 (- 53)"
  by (simp_all add: float_add_zero_left dave_pmem dave_pcpu del: float_add.simps)

lemma changed_process:
  "u \<noteq> v \<Longrightarrow>
   result (example_shell (process_command v := p)) (get_user_stats u) =
     result example_shell (get_user_stats u)"
  by (rule get_user_stats_cong) (simp_all add: distinct_commands)

lemma changed_identity:
  "u \<noteq> v \<Longrightarrow>
   result (example_shell (identity_command v := p)) (get_user_stats u) =
     result example_shell (get_user_stats u)"
  by (rule get_user_stats_cong) (simp_all add: distinct_commands)

lemma changed_group:
  "(example_shell (process_command v := p)) group_command = example_shell group_command"
  "(example_shell (identity_command v := p)) group_command = example_shell group_command"
  by (simp_all add: distinct_commands)

lemma str_nat_digits: "list_all isdigit (str_nat n) \<and> str_nat n \<noteq> []"
proof (induction n rule: str_nat.induct)
  case (1 n)
  have d: "isdigit (digit_char k)" if "k < 10" for k
  proof -
    from that have "k \<in> {0, 1, 2, 3, 4, 5, 6, 7, 8, 9}" by auto
    then show ?thesis by (auto simp: digit_char_def isdigit_def)
  qed
  show ?case
  proof (cases "n < 10")
    case True
    then show ?thesis by (subst str_nat.simps, subst (2) str_nat.simps) (simp add: d)
  next
    case False
    with 1 show ?thesis
      by (subst str_nat.simps, subst (2) str_nat.simps) (simp add: d)
  qed
qed

lemma str_nat_length: "10 ^ k \<le> n \<Longrightarrow> k < length (str_nat n)"
proof (induction k arbitrary: n)
  case 0
  then show ?case using str_nat_digits [of n] by (cases "str_nat n") auto
next
  case (Suc k)
  then have "10 ^ k \<le> n div 10" by simp
  then have "k < length (str_nat (n div 10))" by (rule Suc.IH)
  moreover from Suc.prems have "\<not> n < 10"
    by (metis One_nat_def Suc_le_eq less_le_trans not_less one_le_numeral one_le_power
        power_Suc power_one_right mult.commute mult.right_neutral mult_le_mono2)
  ultimately show ?case by (subst str_nat.simps) simp
qed

lemma str_int_too_long: "str_int (10 ^ int_max_str_digits) = Inl ValueError"
proof -
  have "nat \<bar>10 ^ int_max_str_digits :: int\<bar> = 10 ^ int_max_str_digits"
    by (simp add: nat_power_eq)
  moreover have "int_max_str_digits < length (str_nat (10 ^ int_max_str_digits))"
    by (rule str_nat_length) simp
  ultimately show ?thesis by (simp add: str_int_def nat_power_eq)
qed

section \<open>The claims\<close>

text \<open>
  In what follows, \<open>result sh (get_user_stats u)\<close> is what \<^verbatim>\<open>get_user_stats\<close> returns or
  raises for the user \<open>u\<close>; by \<open>run_fst\<close> it is the result of running the coroutine, and by
  \<open>gather_returns\<close> and \<open>gather_raises\<close> it is what the task of \<open>u\<close> contributes to
  \<^verbatim>\<open>asyncio.gather\<close>, whatever the order in which the processes finish.
\<close>

subsection \<open>C9: the command executor\<close>




subsection \<open>C4: the group command fails\<close>

text \<open>
  C4. If the group command exits with a status other than zero, the run ends with exit
  status 1 and the traceback of the exception that \<^verbatim>\<open>run_command\<close> raises, the
  \<open>CommandRunException\<close> with the command and its standard error or, when the standard
  error is not valid UTF-8, \<open>UnicodeDecodeError\<close>. It prints nothing, and the group
  command is the only process that was spawned: no identity command and no
  process-table command.
\<close>

theorem group_failure_is_fatal:
  assumes "returncode (sh group_command) \<noteq> 0"
  shows "script sh turns fmt =
           \<lparr>exit_status = 1, report = [],
            traceback =
              Some (case stderr (sh group_command) of
                      Encoded err \<Rightarrow>
                        CommandRunException
                          (''Error running command '' @ group_command @ '': '' @ err)
                    | Undecodable \<Rightarrow> UnicodeDecodeError),
            commands = [group_command]\<rparr>"
proof -
  from assms have "result sh (run_command group_command) =
      Inl (case stderr (sh group_command) of
             Encoded err \<Rightarrow>
               CommandRunException (''Error running command '' @ group_command @ '': '' @ err)
           | Undecodable \<Rightarrow> UnicodeDecodeError)"
    by (simp add: result_run_command split: bytes.splits)
  from main_group_raises [OF this] show ?thesis by (simp add: script_def)
qed

theorem group_failure_is_fatal_witness:
  "returncode (no_group_shell group_command) \<noteq> 0
   \<and> script no_group_shell [Worker 1, Worker 0, Caller] ''table'' =
       \<lparr>exit_status = 1, report = [],
        traceback = Some (CommandRunException
                           ''Error running command adquery group -m: no such group''),
        commands = [''adquery group -m'']\<rparr>"
proof -
  have n: "returncode (no_group_shell group_command) \<noteq> 0"
    by (simp add: no_group_shell_def failed_def)
  have e: "stderr (no_group_shell group_command) = Encoded ''no such group''"
    by (simp add: no_group_shell_def failed_def)
  from group_failure_is_fatal [of no_group_shell "[Worker 1, Worker 0, Caller]" "''table''"] n e
  have "script no_group_shell [Worker 1, Worker 0, Caller] ''table'' =
       \<lparr>exit_status = 1, report = [],
        traceback = Some (CommandRunException
                           ''Error running command adquery group -m: no such group''),
        commands = [''adquery group -m'']\<rparr>"
    by (simp add: group_command_def)
  with n show ?thesis by blast
qed

subsection \<open>C10: an empty process table\<close>

text \<open>
  C10. If the process-table command of a user exits with status zero and its output is
  empty or whitespace only, \<^verbatim>\<open>get_user_stats\<close> neither returns a record of zeros nor
  returns \<^verbatim>\<open>None\<close>: the one empty line does not unpack into three fields, and the
  \<open>ValueError\<close>, which is not the exception that is caught, leaves \<^verbatim>\<open>get_user_stats\<close>
  (unless the identity command before it has left a stream that is not valid UTF-8:
  then \<open>UnicodeDecodeError\<close> has left \<^verbatim>\<open>get_user_stats\<close> already). When the user is one of
  the group, the run ends with an exception of one of its members, whatever the order in
  which the processes finish, and prints nothing; the exception is \<open>ValueError\<close> when the
  streams of all members are valid UTF-8.
\<close>

theorem empty_process_table_aborts:
  assumes "returncode (sh (process_command u)) = 0"
    and "stdout (sh (process_command u)) = Encoded out"
    and "list_all isspace out"
  shows "result sh (get_user_stats u) =
           (if undecodable (sh (identity_command u)) then Inl UnicodeDecodeError
            else Inl ValueError)
         \<and> (returncode (sh group_command) = 0 \<and> stdout (sh group_command) = Encoded names
              \<and> u \<in> set (usernames_of names) \<longrightarrow>
            exit_status (script sh turns fmt) = 1 \<and> report (script sh turns fmt) = []
            \<and> (traceback (script sh turns fmt) = Some ValueError
               \<or> traceback (script sh turns fmt) = Some UnicodeDecodeError)
            \<and> ((\<forall>v \<in> set (usernames_of names).
                   \<not> undecodable (sh (identity_command v))
                   \<and> \<not> undecodable (sh (process_command v))) \<longrightarrow>
               traceback (script sh turns fmt) = Some ValueError))"
proof -
  have "\<exists>l \<in> set (process_lines out). parse_line l = None"
    by (simp add: process_lines_blank [OF assms(3)] parse_line_empty)
  with assms(1,2)
  have r: "result sh (get_user_stats u) =
             (if undecodable (sh (identity_command u)) then Inl UnicodeDecodeError
              else Inl ValueError)"
    by (rule get_user_stats_malformed)
  then have "\<exists>e. result sh (get_user_stats u) = Inl e" by simp
  with r show ?thesis using script_aborts [of sh names u _ turns fmt] by blast
qed

theorem empty_process_table_aborts_witness:
  "returncode (blank_shell (process_command ''carol'')) = 0
   \<and> stdout (blank_shell (process_command ''carol'')) = Encoded ('' '' @ [NL])
   \<and> list_all isspace ('' '' @ [NL])
   \<and> \<not> undecodable (blank_shell (identity_command ''carol''))
   \<and> returncode (blank_shell group_command) = 0
   \<and> stdout (blank_shell group_command) =
       Encoded (''alice'' @ [NL] @ ''bob'' @ [NL] @ ''carol'' @ [NL])
   \<and> usernames_of (''alice'' @ [NL] @ ''bob'' @ [NL] @ ''carol'' @ [NL]) =
       [''alice'', ''bob'', ''carol'']
   \<and> result blank_shell (get_user_stats ''carol'') = Inl ValueError
   \<and> exit_status (script blank_shell [Worker 2, Worker 0, Worker 2, Caller] ''table'') = 1
   \<and> report (script blank_shell [Worker 2, Worker 0, Worker 2, Caller] ''table'') = []
   \<and> traceback (script blank_shell [Worker 2, Worker 0, Worker 2, Caller] ''table'') =
       Some ValueError"
proof -
  have z: "returncode (blank_shell (process_command ''carol'')) = 0"
    "stdout (blank_shell (process_command ''carol'')) = Encoded ('' '' @ [NL])"
    by (simp_all add: blank_shell_def ok_def)
  have b: "list_all isspace ('' '' @ [NL])"
    by (simp add: isspace_def NL_def)
  have i: "\<not> undecodable (blank_shell (identity_command ''carol''))"
    by (rule changed_decodable)
  have g: "returncode (blank_shell group_command) = 0"
    "stdout (blank_shell group_command) =
       Encoded (''alice'' @ [NL] @ ''bob'' @ [NL] @ ''carol'' @ [NL])"
    by (simp_all add: blank_shell_def distinct_commands example_group)
  have m: "''carol'' \<in> set (usernames_of (''alice'' @ [NL] @ ''bob'' @ [NL] @ ''carol'' @ [NL]))"
    unfolding example_group(3) by simp
  have d: "\<forall>v \<in> set (usernames_of (''alice'' @ [NL] @ ''bob'' @ [NL] @ ''carol'' @ [NL])).
             \<not> undecodable (blank_shell (identity_command v))
             \<and> \<not> undecodable (blank_shell (process_command v))"
    by (simp add: changed_decodable)
  from empty_process_table_aborts
         [of blank_shell "''carol''" "'' '' @ [NL]"
             "''alice'' @ [NL] @ ''bob'' @ [NL] @ ''carol'' @ [NL]"
             "[Worker 2, Worker 0, Worker 2, Caller]" "''table''", OF z b]
       i g m d
  have "result blank_shell (get_user_stats ''carol'') = Inl ValueError
   \<and> exit_status (script blank_shell [Worker 2, Worker 0, Worker 2, Caller] ''table'') = 1
   \<and> report (script blank_shell [Worker 2, Worker 0, Worker 2, Caller] ''table'') = []
   \<and> traceback (script blank_shell [Worker 2, Worker 0, Worker 2, Caller] ''table'') =
       Some ValueError"
    by simp
  with z b i g example_group(3) show ?thesis by simp
qed

subsection \<open>C1: a malformed line\<close>

text \<open>
  C1, as claimed: a line of the process table that does not parse makes the collection
  for that user fail silently, with no record, while the other users of the run still
  get their records. In the run below the table of carol is \<^verbatim>\<open>100 abc 2.0\<close>; alice and bob
  have well-formed tables. The collection for carol raises \<open>ValueError\<close>, and the run
  ends with that exception and exit status 1 and prints no record at all.
\<close>

theorem malformed_line_counterexample:
  "returncode (malformed_shell (process_command ''carol'')) = 0
   \<and> stdout (malformed_shell (process_command ''carol'')) = Encoded ''100 abc 2.0''
   \<and> result malformed_shell (get_user_stats ''carol'') = Inl ValueError
   \<and> result malformed_shell (get_user_stats ''alice'') =
       Inr (Some \<lparr>username = ''alice'', upn = Some ''alice@EXAMPLE'', rss_total = 300,
                   pmem_total = Finite False 4503599627370496 (- 51),
                   pcpu_total = Finite False 6755399441055744 (- 51)\<rparr>)
   \<and> exit_status (script malformed_shell [] ''table'') = 1
   \<and> report (script malformed_shell [] ''table'') = []
   \<and> traceback (script malformed_shell [] ''table'') = Some ValueError"
proof -
  have z: "returncode (malformed_shell (process_command ''carol'')) = 0"
    "stdout (malformed_shell (process_command ''carol'')) = Encoded ''100 abc 2.0''"
    by (simp_all add: malformed_shell_def ok_def)
  have l: "process_lines ''100 abc 2.0'' = [''100 abc 2.0'']"
    by (simp add: text_eval)
  have p: "parse_line ''100 abc 2.0'' = None"
    by (simp add: text_eval float_eval split del: if_split cong: eval_cong)
  have q: "\<exists>l \<in> set (process_lines ''100 abc 2.0''). parse_line l = None"
    by (simp add: l p)
  from get_user_stats_malformed [of malformed_shell "''carol''" "''100 abc 2.0''"] z q
  have c: "result malformed_shell (get_user_stats ''carol'') = Inl ValueError"
    by (simp add: changed_decodable)
  have a: "result malformed_shell (get_user_stats ''alice'') =
       Inr (Some \<lparr>username = ''alice'', upn = Some ''alice@EXAMPLE'', rss_total = 300,
                   pmem_total = Finite False 4503599627370496 (- 51),
                   pcpu_total = Finite False 6755399441055744 (- 51)\<rparr>)"
    by (simp add: malformed_shell_def changed_process alice_result)
  have g: "returncode (malformed_shell group_command) = 0"
    "stdout (malformed_shell group_command) =
       Encoded (''alice'' @ [NL] @ ''bob'' @ [NL] @ ''carol'' @ [NL])"
    by (simp_all add: malformed_shell_def distinct_commands example_group)
  have m: "''carol'' \<in> set (usernames_of (''alice'' @ [NL] @ ''bob'' @ [NL] @ ''carol'' @ [NL]))"
    unfolding example_group(3) by simp
  have d: "\<forall>v \<in> set (usernames_of (''alice'' @ [NL] @ ''bob'' @ [NL] @ ''carol'' @ [NL])).
             \<not> undecodable (malformed_shell (identity_command v))
             \<and> \<not> undecodable (malformed_shell (process_command v))"
    by (simp add: changed_decodable)
  from script_aborts
         [of malformed_shell "''alice'' @ [NL] @ ''bob'' @ [NL] @ ''carol'' @ [NL]" "''carol''"
             ValueError "[]" "''table''"]
       g m c d
  have "exit_status (script malformed_shell [] ''table'') = 1
   \<and> report (script malformed_shell [] ''table'') = []
   \<and> traceback (script malformed_shell [] ''table'') = Some ValueError"
    by blast
  with z c a show ?thesis by blast
qed

text \<open>
  C1, amended. If the process-table command of a user exits with status zero and a line
  of its output does not split into exactly three fields or has a field that \<^verbatim>\<open>int()\<close>
  or \<^verbatim>\<open>float()\<close> rejects, \<^verbatim>\<open>get_user_stats\<close> produces no record for that user and does not
  fail silently: \<open>ValueError\<close> leaves it (or \<open>UnicodeDecodeError\<close>, when the identity
  command before has left a stream that is not valid UTF-8). When the user is one of the
  group, the whole run ends with the exception of one of its members and exit status 1,
  whatever the order in which the processes finish, and prints no record for any user;
  the exception is \<open>ValueError\<close> when the streams of all members are valid UTF-8.
\<close>

theorem malformed_line_aborts:
  assumes "returncode (sh (process_command u)) = 0"
    and "stdout (sh (process_command u)) = Encoded out"
    and "\<exists>l \<in> set (process_lines out). parse_line l = None"
  shows "result sh (get_user_stats u) =
           (if undecodable (sh (identity_command u)) then Inl UnicodeDecodeError
            else Inl ValueError)
         \<and> (returncode (sh group_command) = 0 \<and> stdout (sh group_command) = Encoded names
              \<and> u \<in> set (usernames_of names) \<longrightarrow>
            exit_status (script sh turns fmt) = 1 \<and> report (script sh turns fmt) = []
            \<and> (traceback (script sh turns fmt) = Some ValueError
               \<or> traceback (script sh turns fmt) = Some UnicodeDecodeError)
            \<and> ((\<forall>v \<in> set (usernames_of names).
                   \<not> undecodable (sh (identity_command v))
                   \<and> \<not> undecodable (sh (process_command v))) \<longrightarrow>
               traceback (script sh turns fmt) = Some ValueError))"
proof -
  from assms
  have r: "result sh (get_user_stats u) =
             (if undecodable (sh (identity_command u)) then Inl UnicodeDecodeError
              else Inl ValueError)"
    by (rule get_user_stats_malformed)
  then have "\<exists>e. result sh (get_user_stats u) = Inl e" by simp
  with r show ?thesis using script_aborts [of sh names u _ turns fmt] by blast
qed

theorem malformed_line_aborts_witness:
  "returncode (malformed_shell (process_command ''carol'')) = 0
   \<and> stdout (malformed_shell (process_command ''carol'')) = Encoded ''100 abc 2.0''
   \<and> process_lines ''100 abc 2.0'' = [''100 abc 2.0'']
   \<and> parse_line ''100 abc 2.0'' = None
   \<and> \<not> undecodable (malformed_shell (identity_command ''carol''))
   \<and> returncode (malformed_shell group_command) = 0
   \<and> stdout (malformed_shell group_command) =
       Encoded (''alice'' @ [NL] @ ''bob'' @ [NL] @ ''carol'' @ [NL])
   \<and> usernames_of (''alice'' @ [NL] @ ''bob'' @ [NL] @ ''carol'' @ [NL]) =
       [''alice'', ''bob'', ''carol'']
   \<and> result malformed_shell (get_user_stats ''carol'') = Inl ValueError
   \<and> exit_status (script malformed_shell [Worker 1, Worker 2, Worker 2, Worker 0] ''json'') = 1
   \<and> report (script malformed_shell [Worker 1, Worker 2, Worker 2, Worker 0] ''json'') = []
   \<and> traceback (script malformed_shell [Worker 1, Worker 2, Worker 2, Worker 0] ''json'') =
       Some ValueError"
proof -
  have z: "returncode (malformed_shell (process_command ''carol'')) = 0"
    "stdout (malformed_shell (process_command ''carol'')) = Encoded ''100 abc 2.0''"
    by (simp_all add: malformed_shell_def ok_def)
  have l: "process_lines ''100 abc 2.0'' = [''100 abc 2.0'']"
    by (simp add: text_eval)
  have p: "parse_line ''100 abc 2.0'' = None"
    by (simp add: text_eval float_eval split del: if_split cong: eval_cong)
  have q: "\<exists>l \<in> set (process_lines ''100 abc 2.0''). parse_line l = None"
    by (simp add: l p)
  have i: "\<not> undecodable (malformed_shell (identity_command ''carol''))"
    by (rule changed_decodable)
  have g: "returncode (malformed_shell group_command) = 0"
    "stdout (malformed_shell group_command) =
       Encoded (''alice'' @ [NL] @ ''bob'' @ [NL] @ ''carol'' @ [NL])"
    by (simp_all add: malformed_shell_def distinct_commands example_group)
  have m: "''carol'' \<in> set (usernames_of (''alice'' @ [NL] @ ''bob'' @ [NL] @ ''carol'' @ [NL]))"
    unfolding example_group(3) by simp
  have d: "\<forall>v \<in> set (usernames_of (''alice'' @ [NL] @ ''bob'' @ [NL] @ ''carol'' @ [NL])).
             \<not> undecodable (malformed_shell (identity_command v))
             \<and> \<not> undecodable (malformed_shell (process_command v))"
    by (simp add: changed_decodable)
  from malformed_line_aborts
         [of malformed_shell "''carol''" "''100 abc 2.0''"
             "''alice'' @ [NL] @ ''bob'' @ [NL] @ ''carol'' @ [NL]"
             "[Worker 1, Worker 2, Worker 2, Worker 0]" "''json''", OF z q]
       i g m d
  have "result malformed_shell (get_user_stats ''carol'') = Inl ValueError
   \<and> exit_status (script malformed_shell [Worker 1, Worker 2, Worker 2, Worker 0] ''json'') = 1
   \<and> report (script malformed_shell [Worker 1, Worker 2, Worker 2, Worker 0] ''json'') = []
   \<and> traceback (script malformed_shell [Worker 1, Worker 2, Worker 2, Worker 0] ''json'') =
       Some ValueError"
    by simp
  with z l p i g example_group(3) show ?thesis by simp
qed

subsection \<open>C2: a failing process-table command\<close>

text \<open>
  C2, as claimed: whenever the process-table command of a user exits with a status other
  than zero, the collection for that user returns no record and raises nothing, and the
  entries of the other users are what they are without that user. In the run below the
  process-table command of carol exits with status 1 and a standard error that is not
  valid UTF-8: the collection for carol raises \<open>UnicodeDecodeError\<close>, and with carol among
  the names there is no list of records, while without her there are the records of
  alice and bob.
\<close>

theorem failed_lookup_counterexample:
  "returncode (garbled_process_shell (process_command ''carol'')) = 1
   \<and> result garbled_process_shell (get_user_stats ''carol'') = Inl UnicodeDecodeError
   \<and> fst (collect_all garbled_process_shell [] [''alice'', ''bob'', ''carol''] io0) =
       Inl UnicodeDecodeError
   \<and> fst (collect_all garbled_process_shell [] [''alice'', ''bob''] io0) =
       Inr [\<lparr>username = ''alice'', upn = Some ''alice@EXAMPLE'', rss_total = 300,
              pmem_total = Finite False 4503599627370496 (- 51),
              pcpu_total = Finite False 6755399441055744 (- 51)\<rparr>,
            \<lparr>username = ''bob'', upn = None, rss_total = 7,
              pmem_total = Finite False 4503599627370496 (- 54),
              pcpu_total = Finite False 4503599627370496 (- 53)\<rparr>]"
proof -
  have z: "returncode (garbled_process_shell (process_command ''carol'')) = 1"
    by (simp add: garbled_process_shell_def garbled_def)
  have c: "result garbled_process_shell (get_user_stats ''carol'') = Inl UnicodeDecodeError"
    by (simp add: get_user_stats_result garbled_process_shell_def garbled_def distinct_commands
        example_decodable)
  have a: "result garbled_process_shell (get_user_stats ''alice'') =
       Inr (Some \<lparr>username = ''alice'', upn = Some ''alice@EXAMPLE'', rss_total = 300,
                   pmem_total = Finite False 4503599627370496 (- 51),
                   pcpu_total = Finite False 6755399441055744 (- 51)\<rparr>)"
    by (simp add: garbled_process_shell_def changed_process alice_result)
  have b: "result garbled_process_shell (get_user_stats ''bob'') =
       Inr (Some \<lparr>username = ''bob'', upn = None, rss_total = 7,
                   pmem_total = Finite False 4503599627370496 (- 54),
                   pcpu_total = Finite False 4503599627370496 (- 53)\<rparr>)"
    by (simp add: garbled_process_shell_def changed_process bob_result)
  have "\<exists>e. fst (collect_all garbled_process_shell [] [''alice'', ''bob'', ''carol''] io0) = Inl e"
    by (rule collect_all_fails [OF _ c]) simp
  then obtain e where
    e: "fst (collect_all garbled_process_shell [] [''alice'', ''bob'', ''carol''] io0) = Inl e"
    by blast
  from collect_all_raises [OF this] a b c have "e = UnicodeDecodeError" by auto
  with e have 1:
    "fst (collect_all garbled_process_shell [] [''alice'', ''bob'', ''carol''] io0) =
       Inl UnicodeDecodeError"
    by simp
  have "\<forall>u \<in> set [''alice'', ''bob'']. \<forall>e. result garbled_process_shell (get_user_stats u) \<noteq> Inl e"
    by (simp add: a b)
  from collect_all_closed [OF this, of "[]" io0]
  have 2: "fst (collect_all garbled_process_shell [] [''alice'', ''bob''] io0) =
       Inr [\<lparr>username = ''alice'', upn = Some ''alice@EXAMPLE'', rss_total = 300,
              pmem_total = Finite False 4503599627370496 (- 51),
              pcpu_total = Finite False 6755399441055744 (- 51)\<rparr>,
            \<lparr>username = ''bob'', upn = None, rss_total = 7,
              pmem_total = Finite False 4503599627370496 (- 54),
              pcpu_total = Finite False 4503599627370496 (- 53)\<rparr>]"
    by (simp add: a b List.map_filter_def record_of_def)
  from z c 1 2 show ?thesis by blast
qed

text \<open>
  C2, amended. If the process-table command of a user exits with a status other than
  zero and its standard error is valid UTF-8, and the stream of the identity command
  that is decoded is valid UTF-8, then \<^verbatim>\<open>get_user_stats\<close> returns \<^verbatim>\<open>None\<close> for that user and
  raises nothing; and the list of records that \<^verbatim>\<open>main\<close> prints is the one it would be
  without that user among the names, whatever the order in which the processes finish:
  with and without the user the same lists of records can be the result, and an
  exception ends the one collection exactly when one ends the other.
\<close>

theorem failed_lookup_is_dropped:
  assumes "returncode (sh (process_command u)) \<noteq> 0"
    and "stderr (sh (process_command u)) = Encoded msg"
    and "\<not> undecodable (sh (identity_command u))"
  shows "result sh (get_user_stats u) = Inr None
         \<and> (fst (collect_all sh turns (us @ u # vs) w) = Inr stats) =
             (fst (collect_all sh turns' (us @ vs) w') = Inr stats)
         \<and> (\<exists>e. fst (collect_all sh turns (us @ u # vs) w) = Inl e) =
             (\<exists>e. fst (collect_all sh turns' (us @ vs) w') = Inl e)"
proof -
  have n: "result sh (get_user_stats u) = Inr None"
    using assms by (simp add: get_user_stats_result)
  have same: "List.map_filter (\<lambda>u. record_of (result sh (get_user_stats u))) (us @ u # vs) =
              List.map_filter (\<lambda>u. record_of (result sh (get_user_stats u))) (us @ vs)"
    using n by (simp add: List.map_filter_def record_of_def)
  have eq: "(fst (collect_all sh turns (us @ u # vs) w) = Inr stats) =
            (fst (collect_all sh turns' (us @ vs) w') = Inr stats)" for stats
  proof
    assume "fst (collect_all sh turns (us @ u # vs) w) = Inr stats"
    from collect_all_returns [OF this]
    have "\<forall>v \<in> set (us @ vs). \<forall>e. result sh (get_user_stats v) \<noteq> Inl e"
      and "stats = List.map_filter (\<lambda>u. record_of (result sh (get_user_stats u))) (us @ vs)"
      by (simp_all add: same)
    with collect_all_closed [of "us @ vs" sh turns' w']
    show "fst (collect_all sh turns' (us @ vs) w') = Inr stats" by simp
  next
    assume "fst (collect_all sh turns' (us @ vs) w') = Inr stats"
    from collect_all_returns [OF this] n
    have "\<forall>v \<in> set (us @ u # vs). \<forall>e. result sh (get_user_stats v) \<noteq> Inl e"
      and "stats = List.map_filter (\<lambda>u. record_of (result sh (get_user_stats u))) (us @ u # vs)"
      by (simp_all add: same)
    with collect_all_closed [of "us @ u # vs" sh turns w]
    show "fst (collect_all sh turns (us @ u # vs) w) = Inr stats" by simp
  qed
  have "(\<exists>e. fst (collect_all sh turns (us @ u # vs) w) = Inl e) =
        (\<exists>e. fst (collect_all sh turns' (us @ vs) w') = Inl e)"
  proof -
    have "(\<exists>e. r = Inl e) = (\<forall>stats. r \<noteq> Inr stats)" for r :: "error + UserStat list"
      by (cases r) auto
    then show ?thesis using eq by simp
  qed
  with n eq show ?thesis by blast
qed

theorem failed_lookup_is_dropped_witness:
  "returncode (example_shell (process_command ''carol'')) \<noteq> 0
   \<and> stderr (example_shell (process_command ''carol'')) = Encoded ''unknown user''
   \<and> \<not> undecodable (example_shell (identity_command ''carol''))
   \<and> result example_shell (get_user_stats ''carol'') = Inr None
   \<and> fst (collect_all example_shell [Worker 2, Worker 0, Worker 0, Worker 1, Worker 2]
            [''alice'', ''carol'', ''bob''] io0) =
       Inr [\<lparr>username = ''alice'', upn = Some ''alice@EXAMPLE'', rss_total = 300,
              pmem_total = Finite False 4503599627370496 (- 51),
              pcpu_total = Finite False 6755399441055744 (- 51)\<rparr>,
            \<lparr>username = ''bob'', upn = None, rss_total = 7,
              pmem_total = Finite False 4503599627370496 (- 54),
              pcpu_total = Finite False 4503599627370496 (- 53)\<rparr>]
   \<and> fst (collect_all example_shell [Worker 1, Worker 0] [''alice'', ''bob''] io0) =
       Inr [\<lparr>username = ''alice'', upn = Some ''alice@EXAMPLE'', rss_total = 300,
              pmem_total = Finite False 4503599627370496 (- 51),
              pcpu_total = Finite False 6755399441055744 (- 51)\<rparr>,
            \<lparr>username = ''bob'', upn = None, rss_total = 7,
              pmem_total = Finite False 4503599627370496 (- 54),
              pcpu_total = Finite False 4503599627370496 (- 53)\<rparr>]"
proof -
  have "\<forall>u \<in> set [''alice'', ''bob'']. \<forall>e. result example_shell (get_user_stats u) \<noteq> Inl e"
    by (simp add: alice_result bob_result)
  from collect_all_closed [OF this, of "[Worker 1, Worker 0]" io0]
  have 2: "fst (collect_all example_shell [Worker 1, Worker 0] [''alice'', ''bob''] io0) =
       Inr [\<lparr>username = ''alice'', upn = Some ''alice@EXAMPLE'', rss_total = 300,
              pmem_total = Finite False 4503599627370496 (- 51),
              pcpu_total = Finite False 6755399441055744 (- 51)\<rparr>,
            \<lparr>username = ''bob'', upn = None, rss_total = 7,
              pmem_total = Finite False 4503599627370496 (- 54),
              pcpu_total = Finite False 4503599627370496 (- 53)\<rparr>]"
    by (simp add: alice_result bob_result List.map_filter_def record_of_def)
  from failed_lookup_is_dropped
         [of example_shell "''carol''" "''unknown user''"
             "[Worker 2, Worker 0, Worker 0, Worker 1, Worker 2]" "[''alice'']" "[''bob'']" io0 _
             "[Worker 1, Worker 0]" io0,
          OF carol_commands(2,3,1)] 2
  have "result example_shell (get_user_stats ''carol'') = Inr None
   \<and> fst (collect_all example_shell [Worker 2, Worker 0, Worker 0, Worker 1, Worker 2]
            [''alice'', ''carol'', ''bob''] io0) =
       Inr [\<lparr>username = ''alice'', upn = Some ''alice@EXAMPLE'', rss_total = 300,
              pmem_total = Finite False 4503599627370496 (- 51),
              pcpu_total = Finite False 6755399441055744 (- 51)\<rparr>,
            \<lparr>username = ''bob'', upn = None, rss_total = 7,
              pmem_total = Finite False 4503599627370496 (- 54),
              pcpu_total = Finite False 4503599627370496 (- 53)\<rparr>]"
    by simp
  with carol_commands 2 show ?thesis by blast
qed

subsection \<open>C6: the results that are kept\<close>

text \<open>
  C6, as claimed: for every sequence of names \<^verbatim>\<open>collect_all\<close> returns the records of the
  collections that were successful, in the order of the names. With the names below the
  collections for alice and bob are successful, and \<^verbatim>\<open>collect_all\<close> returns no list: the
  \<open>ValueError\<close> of the collection for carol is what comes out.
\<close>

theorem collect_all_counterexample:
  "result malformed_shell (get_user_stats ''alice'') =
       Inr (Some \<lparr>username = ''alice'', upn = Some ''alice@EXAMPLE'', rss_total = 300,
                   pmem_total = Finite False 4503599627370496 (- 51),
                   pcpu_total = Finite False 6755399441055744 (- 51)\<rparr>)
   \<and> result malformed_shell (get_user_stats ''bob'') =
       Inr (Some \<lparr>username = ''bob'', upn = None, rss_total = 7,
                   pmem_total = Finite False 4503599627370496 (- 54),
                   pcpu_total = Finite False 4503599627370496 (- 53)\<rparr>)
   \<and> fst (collect_all malformed_shell [] [''alice'', ''bob'', ''carol''] io0) = Inl ValueError"
proof -
  have z: "returncode (malformed_shell (process_command ''carol'')) = 0"
    "stdout (malformed_shell (process_command ''carol'')) = Encoded ''100 abc 2.0''"
    by (simp_all add: malformed_shell_def ok_def)
  have l: "process_lines ''100 abc 2.0'' = [''100 abc 2.0'']"
    by (simp add: text_eval)
  have p: "parse_line ''100 abc 2.0'' = None"
    by (simp add: text_eval float_eval split del: if_split cong: eval_cong)
  have q: "\<exists>l \<in> set (process_lines ''100 abc 2.0''). parse_line l = None"
    by (simp add: l p)
  from get_user_stats_malformed [of malformed_shell "''carol''" "''100 abc 2.0''"] z q
  have c: "result malformed_shell (get_user_stats ''carol'') = Inl ValueError"
    by (simp add: changed_decodable)
  have a: "result malformed_shell (get_user_stats ''alice'') =
       Inr (Some \<lparr>username = ''alice'', upn = Some ''alice@EXAMPLE'', rss_total = 300,
                   pmem_total = Finite False 4503599627370496 (- 51),
                   pcpu_total = Finite False 6755399441055744 (- 51)\<rparr>)"
    by (simp add: malformed_shell_def changed_process alice_result)
  have b: "result malformed_shell (get_user_stats ''bob'') =
       Inr (Some \<lparr>username = ''bob'', upn = None, rss_total = 7,
                   pmem_total = Finite False 4503599627370496 (- 54),
                   pcpu_total = Finite False 4503599627370496 (- 53)\<rparr>)"
    by (simp add: malformed_shell_def changed_process bob_result)
  have "\<exists>e. fst (collect_all malformed_shell [] [''alice'', ''bob'', ''carol''] io0) = Inl e"
    by (rule collect_all_fails [OF _ c]) simp
  then obtain e where
    e: "fst (collect_all malformed_shell [] [''alice'', ''bob'', ''carol''] io0) = Inl e"
    by blast
  from collect_all_raises [OF this] a b c have "e = ValueError" by auto
  with e a b show ?thesis by simp
qed

text \<open>
  C6, amended. For every sequence of names for none of which the collection raises,
  \<^verbatim>\<open>collect_all\<close> returns exactly the records of the collections that returned one, in
  the order of their names in the sequence; the order in which the processes finish and
  the tasks are resumed makes no difference.
\<close>

theorem collect_all_keeps_records_in_order:
  assumes "\<forall>u \<in> set us. \<forall>e. result sh (get_user_stats u) \<noteq> Inl e"
  shows "fst (collect_all sh turns us w) =
           Inr (List.map_filter (\<lambda>u. record_of (result sh (get_user_stats u))) us)
         \<and> fst (collect_all sh turns us w) = fst (collect_all sh turns' us w')"
  using collect_all_closed [OF assms, of turns w] collect_all_closed [OF assms, of turns' w']
  by simp

theorem collect_all_keeps_records_in_order_witness:
  "result example_shell (get_user_stats ''bob'') =
       Inr (Some \<lparr>username = ''bob'', upn = None, rss_total = 7,
                   pmem_total = Finite False 4503599627370496 (- 54),
                   pcpu_total = Finite False 4503599627370496 (- 53)\<rparr>)
   \<and> result example_shell (get_user_stats ''carol'') = Inr None
   \<and> result example_shell (get_user_stats ''alice'') =
       Inr (Some \<lparr>username = ''alice'', upn = Some ''alice@EXAMPLE'', rss_total = 300,
                   pmem_total = Finite False 4503599627370496 (- 51),
                   pcpu_total = Finite False 6755399441055744 (- 51)\<rparr>)
   \<and> fst (collect_all example_shell
            [Worker 3, Worker 2, Worker 3, Worker 0, Worker 2, Caller, Worker 1]
            [''bob'', ''carol'', ''alice'', ''bob''] io0) =
       Inr [\<lparr>username = ''bob'', upn = None, rss_total = 7,
              pmem_total = Finite False 4503599627370496 (- 54),
              pcpu_total = Finite False 4503599627370496 (- 53)\<rparr>,
            \<lparr>username = ''alice'', upn = Some ''alice@EXAMPLE'', rss_total = 300,
              pmem_total = Finite False 4503599627370496 (- 51),
              pcpu_total = Finite False 6755399441055744 (- 51)\<rparr>,
            \<lparr>username = ''bob'', upn = None, rss_total = 7,
              pmem_total = Finite False 4503599627370496 (- 54),
              pcpu_total = Finite False 4503599627370496 (- 53)\<rparr>]
   \<and> fst (collect_all example_shell
            [Worker 3, Worker 2, Worker 3, Worker 0, Worker 2, Caller, Worker 1]
            [''bob'', ''carol'', ''alice'', ''bob''] io0) =
       fst (collect_all example_shell [] [''bob'', ''carol'', ''alice'', ''bob''] io0)"
proof -
  have n: "\<forall>u \<in> set [''bob'', ''carol'', ''alice'', ''bob''].
             \<forall>e. result example_shell (get_user_stats u) \<noteq> Inl e"
    by (simp add: alice_result bob_result carol_result)
  note t = collect_all_keeps_records_in_order
         [OF n, of "[Worker 3, Worker 2, Worker 3, Worker 0, Worker 2, Caller, Worker 1]" io0
             "[]" io0]
  have m: "List.map_filter (\<lambda>u. record_of (result example_shell (get_user_stats u)))
             [''bob'', ''carol'', ''alice'', ''bob''] =
           [\<lparr>username = ''bob'', upn = None, rss_total = 7,
              pmem_total = Finite False 4503599627370496 (- 54),
              pcpu_total = Finite False 4503599627370496 (- 53)\<rparr>,
            \<lparr>username = ''alice'', upn = Some ''alice@EXAMPLE'', rss_total = 300,
              pmem_total = Finite False 4503599627370496 (- 51),
              pcpu_total = Finite False 6755399441055744 (- 51)\<rparr>,
            \<lparr>username = ''bob'', upn = None, rss_total = 7,
              pmem_total = Finite False 4503599627370496 (- 54),
              pcpu_total = Finite False 4503599627370496 (- 53)\<rparr>]"
    by (simp add: alice_result bob_result carol_result List.map_filter_def record_of_def)
  from t [THEN conjunct1] t [THEN conjunct2] alice_result bob_result carol_result
  show ?thesis unfolding m by (intro conjI)
qed

subsection \<open>C3: the totals\<close>

text \<open>
  C3. For every user whose process-table command exits with status zero and whose
  output lines each hold three numeric fields, the record that \<^verbatim>\<open>get_user_stats\<close> returns
  has as resident-memory total the integer sum of the first fields and as memory and CPU
  totals the floating-point sums of the second and third fields, added to \<^verbatim>\<open>0.0\<close> in the
  order of the lines. There is such a record unless decoding the stream of the identity
  command raises \<open>UnicodeDecodeError\<close>. In particular the output \<^verbatim>\<open>100 1.5 2.0\<close>,
  \<^verbatim>\<open>200 0.5 1.0\<close> with the identity \<^verbatim>\<open>alice@EXAMPLE\<close> gives the totals 300, 2.0 and 3.0 and
  the table row \<^verbatim>\<open>alice\<close>, \<^verbatim>\<open>alice@EXAMPLE\<close>, \<^verbatim>\<open>300\<close>, \<^verbatim>\<open>2.00\<close>, \<^verbatim>\<open>3.00\<close>, separated by tabs.
\<close>

theorem totals_are_sums:
  "(returncode (sh (process_command u)) = 0 \<and> stdout (sh (process_command u)) = Encoded out
      \<and> map parse_line (process_lines out) = map Some nums \<longrightarrow>
    result sh (get_user_stats u) =
      (if undecodable (sh (identity_command u)) then Inl UnicodeDecodeError
       else Inr (Some \<lparr>username = u, upn = upn_of (sh (identity_command u)),
                        rss_total = sum_list (map fst nums),
                        pmem_total = foldl float_add float_zero (map (fst \<circ> snd) nums),
                        pcpu_total = foldl float_add float_zero (map (snd \<circ> snd) nums)\<rparr>)))
   \<and> stdout (example_shell (process_command ''alice'')) =
       Encoded (''100 1.5 2.0'' @ [NL] @ ''200 0.5 1.0'')
   \<and> stdout (example_shell (identity_command ''alice'')) = Encoded ''alice@EXAMPLE''
   \<and> result example_shell (get_user_stats ''alice'') =
       Inr (Some \<lparr>username = ''alice'', upn = Some ''alice@EXAMPLE'', rss_total = 300,
                   pmem_total = Finite False 4503599627370496 (- 51),
                   pcpu_total = Finite False 6755399441055744 (- 51)\<rparr>)
   \<and> py_float ''2.0'' = Inr (Finite False 4503599627370496 (- 51))
   \<and> py_float ''3.0'' = Inr (Finite False 6755399441055744 (- 51))
   \<and> to_table_row \<lparr>username = ''alice'', upn = Some ''alice@EXAMPLE'', rss_total = 300,
                     pmem_total = Finite False 4503599627370496 (- 51),
                     pcpu_total = Finite False 6755399441055744 (- 51)\<rparr> =
       Inr (''alice'' @ [TAB] @ ''alice@EXAMPLE'' @ [TAB] @ ''300'' @ [TAB] @ ''2.00'' @ [TAB]
            @ ''3.00'')"
proof -
  have general: "returncode (sh (process_command u)) = 0
      \<and> stdout (sh (process_command u)) = Encoded out
      \<and> map parse_line (process_lines out) = map Some nums \<longrightarrow>
    result sh (get_user_stats u) =
      (if undecodable (sh (identity_command u)) then Inl UnicodeDecodeError
       else Inr (Some \<lparr>username = u, upn = upn_of (sh (identity_command u)),
                        rss_total = sum_list (map fst nums),
                        pmem_total = foldl float_add float_zero (map (fst \<circ> snd) nums),
                        pcpu_total = foldl float_add float_zero (map (snd \<circ> snd) nums)\<rparr>))"
    using get_user_stats_numeric [of sh u out nums] by blast
  show ?thesis
    by (rule conjI general alice_commands(4) alice_commands(2) alice_result two_and_three
        alice_row)+
qed

theorem totals_are_sums_witness:
  "returncode (three_line_shell (process_command ''dave'')) = 0
   \<and> stdout (three_line_shell (process_command ''dave'')) =
       Encoded (''1 0.1 0.3'' @ [NL] @ ''2 0.2 0.2'' @ [NL] @ ''3 0.3 0.1'')
   \<and> map parse_line (process_lines (''1 0.1 0.3'' @ [NL] @ ''2 0.2 0.2'' @ [NL] @ ''3 0.3 0.1'')) =
       map Some [(1, Finite False 7205759403792794 (- 56), Finite False 5404319552844595 (- 54)),
                 (2, Finite False 7205759403792794 (- 55), Finite False 7205759403792794 (- 55)),
                 (3, Finite False 5404319552844595 (- 54), Finite False 7205759403792794 (- 56))]
   \<and> \<not> undecodable (three_line_shell (identity_command ''dave''))
   \<and> result three_line_shell (get_user_stats ''dave'') =
       Inr (Some \<lparr>username = ''dave'', upn = None, rss_total = 6,
                   pmem_total = Finite False 5404319552844596 (- 53),
                   pcpu_total = Finite False 5404319552844595 (- 53)\<rparr>)"
proof -
  have i: "\<not> undecodable (three_line_shell (identity_command ''dave''))"
    by (rule changed_decodable)
  from totals_are_sums
         [of three_line_shell "''dave''"
             "''1 0.1 0.3'' @ [NL] @ ''2 0.2 0.2'' @ [NL] @ ''3 0.3 0.1''"
             "[(1, Finite False 7205759403792794 (- 56), Finite False 5404319552844595 (- 54)),
               (2, Finite False 7205759403792794 (- 55), Finite False 7205759403792794 (- 55)),
               (3, Finite False 5404319552844595 (- 54), Finite False 7205759403792794 (- 56))]"]
       dave_commands(1,2) dave_parsed i
  have "result three_line_shell (get_user_stats ''dave'') =
       Inr (Some \<lparr>username = ''dave'', upn = upn_of (three_line_shell (identity_command ''dave'')),
                   rss_total = sum_list (map fst
     [(1::int, Finite False 7205759403792794 (- 56), Finite False 5404319552844595 (- 54)),
      (2, Finite False 7205759403792794 (- 55), Finite False 7205759403792794 (- 55)),
      (3, Finite False 5404319552844595 (- 54), Finite False 7205759403792794 (- 56))]),
                   pmem_total = foldl float_add float_zero (map (fst \<circ> snd)
     [(1::int, Finite False 7205759403792794 (- 56), Finite False 5404319552844595 (- 54)),
      (2, Finite False 7205759403792794 (- 55), Finite False 7205759403792794 (- 55)),
      (3, Finite False 5404319552844595 (- 54), Finite False 7205759403792794 (- 56))]),
                   pcpu_total = foldl float_add float_zero (map (snd \<circ> snd)
     [(1::int, Finite False 7205759403792794 (- 56), Finite False 5404319552844595 (- 54)),
      (2, Finite False 7205759403792794 (- 55), Finite False 7205759403792794 (- 55)),
      (3, Finite False 5404319552844595 (- 54), Finite False 7205759403792794 (- 56))])\<rparr>)"
    by (simp only: simp_thms if_False)
  then have "result three_line_shell (get_user_stats ''dave'') =
       Inr (Some \<lparr>username = ''dave'', upn = None, rss_total = 6,
                   pmem_total = Finite False 5404319552844596 (- 53),
                   pcpu_total = Finite False 5404319552844595 (- 53)\<rparr>)"
    by (simp only: dave_sums dave_commands(3))
  with dave_commands(1,2) dave_parsed i show ?thesis by (intro conjI)
qed

subsection \<open>C5: a failing identity command\<close>

text \<open>
  C5, as claimed: whenever the identity command of a user fails and the process-table
  command succeeds with well-formed output, a record with no identity is produced and
  the failure of the identity command is not propagated. In the run below the identity
  command of bob exits with status 1 and a standard error that is not valid UTF-8, and
  the process table of bob is \<^verbatim>\<open>7 0.25 0.5\<close>: the collection for bob raises
  \<open>UnicodeDecodeError\<close>. And a record with no identity has no table row when its total
  of resident memory has more than 4300 digits: formatting it raises \<open>ValueError\<close>.
\<close>

theorem identity_failure_counterexample:
  "returncode (garbled_identity_shell (identity_command ''bob'')) = 1
   \<and> returncode (garbled_identity_shell (process_command ''bob'')) = 0
   \<and> stdout (garbled_identity_shell (process_command ''bob'')) = Encoded (''7 0.25 0.5'' @ [NL])
   \<and> map parse_line (process_lines (''7 0.25 0.5'' @ [NL])) =
       map Some [(7, Finite False 4503599627370496 (- 54), Finite False 4503599627370496 (- 53))]
   \<and> result garbled_identity_shell (get_user_stats ''bob'') = Inl UnicodeDecodeError
   \<and> to_table_row \<lparr>username = ''bob'', upn = None, rss_total = 10 ^ int_max_str_digits,
                     pmem_total = float_zero, pcpu_total = float_zero\<rparr> = Inl ValueError"
proof -
  have i: "returncode (garbled_identity_shell (identity_command ''bob'')) = 1"
    "undecodable (garbled_identity_shell (identity_command ''bob''))"
    by (simp_all add: garbled_identity_shell_def garbled_def undecodable_def)
  have p: "returncode (garbled_identity_shell (process_command ''bob'')) = 0"
    "stdout (garbled_identity_shell (process_command ''bob'')) = Encoded (''7 0.25 0.5'' @ [NL])"
    by (simp_all add: garbled_identity_shell_def distinct_commands bob_commands)
  have r: "result garbled_identity_shell (get_user_stats ''bob'') = Inl UnicodeDecodeError"
    using i(2) by (simp add: get_user_stats_result)
  have t: "to_table_row \<lparr>username = ''bob'', upn = None, rss_total = 10 ^ int_max_str_digits,
                     pmem_total = float_zero, pcpu_total = float_zero\<rparr> = Inl ValueError"
    by (simp add: to_table_row_def str_int_too_long)
  from i(1) p bob_parsed r t show ?thesis by (intro conjI)
qed

text \<open>
  C5, amended. For every user whose identity command exits with a status other than zero
  and a standard error that is valid UTF-8, and whose process-table command exits with
  status zero with three numeric fields on every line, \<^verbatim>\<open>get_user_stats\<close> raises nothing
  and returns a record whose identity is \<^verbatim>\<open>None\<close>. The table row of that record has
  \<^verbatim>\<open>none\<close> in the identity column; there is a row when \<^verbatim>\<open>str\<close> accepts the total of
  resident memory (it has at most 4300 digits), and otherwise formatting the row raises
  the \<open>ValueError\<close> of \<^verbatim>\<open>str\<close>.
\<close>

theorem identity_failure_is_tolerated:
  assumes "returncode (sh (identity_command u)) \<noteq> 0"
    and "stderr (sh (identity_command u)) = Encoded msg"
    and "returncode (sh (process_command u)) = 0"
    and "stdout (sh (process_command u)) = Encoded out"
    and "map parse_line (process_lines out) = map Some nums"
  shows "\<exists>stat. result sh (get_user_stats u) = Inr (Some stat)
           \<and> username stat = u \<and> upn stat = None
           \<and> rss_total stat = sum_list (map fst nums)
           \<and> to_table_row stat =
               (case str_int (rss_total stat) of
                  Inl e \<Rightarrow> Inl e
                | Inr rss_text \<Rightarrow>
                    Inr (u @ [TAB] @ ''none'' @ [TAB] @ rss_text @ [TAB]
                         @ fmt2 (pmem_total stat) @ [TAB] @ fmt2 (pcpu_total stat)))"
proof -
  from assms(1,2) have d: "\<not> undecodable (sh (identity_command u))"
    "upn_of (sh (identity_command u)) = None"
    by (simp_all add: undecodable_def upn_of_def)
  from get_user_stats_numeric [of sh u out nums] assms(3,4,5) d show ?thesis
    by (simp add: to_table_row_def split: sum.splits)
qed

theorem identity_failure_is_tolerated_witness:
  "returncode (example_shell (identity_command ''bob'')) \<noteq> 0
   \<and> stderr (example_shell (identity_command ''bob'')) = Encoded ''unknown user''
   \<and> returncode (example_shell (process_command ''bob'')) = 0
   \<and> stdout (example_shell (process_command ''bob'')) = Encoded (''7 0.25 0.5'' @ [NL])
   \<and> map parse_line (process_lines (''7 0.25 0.5'' @ [NL])) =
       map Some [(7, Finite False 4503599627370496 (- 54), Finite False 4503599627370496 (- 53))]
   \<and> result example_shell (get_user_stats ''bob'') =
       Inr (Some \<lparr>username = ''bob'', upn = None, rss_total = 7,
                   pmem_total = Finite False 4503599627370496 (- 54),
                   pcpu_total = Finite False 4503599627370496 (- 53)\<rparr>)
   \<and> str_int 7 = Inr ''7''
   \<and> to_table_row \<lparr>username = ''bob'', upn = None, rss_total = 7,
                     pmem_total = Finite False 4503599627370496 (- 54),
                     pcpu_total = Finite False 4503599627370496 (- 53)\<rparr> =
       Inr (''bob'' @ [TAB] @ ''none'' @ [TAB] @ ''7'' @ [TAB] @ ''0.25'' @ [TAB] @ ''0.50'')"
proof -
  have s: "str_int 7 = Inr ''7''"
    by (simp add: text_eval)
  have f: "fmt2 (Finite False 4503599627370496 (- 54)) = ''0.25''"
    "fmt2 (Finite False 4503599627370496 (- 53)) = ''0.50''"
    by (simp_all add: text_eval float_eval split del: if_split cong: eval_cong)
  from identity_failure_is_tolerated
         [of example_shell "''bob''" "''unknown user''" "''7 0.25 0.5'' @ [NL]"
             "[(7, Finite False 4503599627370496 (- 54), Finite False 4503599627370496 (- 53))]",
          OF bob_commands bob_parsed]
  obtain stat where st: "result example_shell (get_user_stats ''bob'') = Inr (Some stat)"
    and row: "to_table_row stat =
               (case str_int (rss_total stat) of
                  Inl e \<Rightarrow> Inl e
                | Inr rss_text \<Rightarrow>
                    Inr (''bob'' @ [TAB] @ ''none'' @ [TAB] @ rss_text @ [TAB]
                         @ fmt2 (pmem_total stat) @ [TAB] @ fmt2 (pcpu_total stat)))"
    by blast
  from st bob_result
  have e: "stat = \<lparr>username = ''bob'', upn = None, rss_total = 7,
                   pmem_total = Finite False 4503599627370496 (- 54),
                   pcpu_total = Finite False 4503599627370496 (- 53)\<rparr>"
    by simp
  from row have "to_table_row \<lparr>username = ''bob'', upn = None, rss_total = 7,
                     pmem_total = Finite False 4503599627370496 (- 54),
                     pcpu_total = Finite False 4503599627370496 (- 53)\<rparr> =
       Inr (''bob'' @ [TAB] @ ''none'' @ [TAB] @ ''7'' @ [TAB] @ ''0.25'' @ [TAB] @ ''0.50'')"
    unfolding e by (simp add: s f del: fmt2.simps)
  with bob_commands bob_parsed bob_result s show ?thesis by (intro conjI)
qed

subsection \<open>C7: rendering\<close>













lemma all_results_all: "all_results (map Inr vs) = Inr vs"
  by (induction vs) simp_all


lemma json_dumps_list:
  "map (json_dumps \<circ> dict_of) stats = map Inr entries \<Longrightarrow>
   json_dumps (PyList (map dict_of stats)) = Inr (''['' @ join_comma entries @ '']'')"
  using all_results_all [of entries] by simp





end
